theory Spec2Isabelle
  imports Complex_Main
begin

section \<open>Python values\<close>

text \<open>
  The functions of \<^verbatim>\<open>data_utils.py\<close> read loosely typed records produced by the
  analysis agents. A value is \<^verbatim>\<open>None\<close>, an \<^verbatim>\<open>int\<close>, a \<^verbatim>\<open>float\<close>, a \<^verbatim>\<open>str\<close> or an
  object, which is the list of its attributes. An exception is the \<open>Inl\<close> side of a sum.
  A \<^verbatim>\<open>str\<close> is the list of its code points, all below 256.
\<close>

datatype py_error = TypeError | ValueError | AttributeError | OverflowError

text \<open>
  A \<^verbatim>\<open>float\<close> is a finite value, the negative zero, an infinity or a NaN. The finite
  values of the model are all the rationals, which include every binary64 number; the
  arithmetic of the source rounds its results to binary64 (\<open>to_double\<close> below).
\<close>

datatype pyfloat = Fin rat | NegZero | PosInf | NegInf | NaN

datatype pyval =
    PyNone
  | PyInt int
  | PyFloat pyfloat
  | PyStr string
  | PyObj "(string \<times> pyval) list"

definition ebind :: "py_error + 'a \<Rightarrow> ('a \<Rightarrow> py_error + 'b) \<Rightarrow> py_error + 'b" where
  "ebind m f = (case m of Inl e \<Rightarrow> Inl e | Inr x \<Rightarrow> f x)"

subsection \<open>Comparisons\<close>

text \<open>
  The order of the floats: a NaN compares false with everything, the two zeros are equal.
\<close>

definition f_key :: "pyfloat \<Rightarrow> (int \<times> rat) option" where
  "f_key x = (case x of
      Fin r \<Rightarrow> Some (0, r)
    | NegZero \<Rightarrow> Some (0, 0)
    | PosInf \<Rightarrow> Some (1, 0)
    | NegInf \<Rightarrow> Some (- 1, 0)
    | NaN \<Rightarrow> None)"

definition f_lt :: "pyfloat \<Rightarrow> pyfloat \<Rightarrow> bool" where
  "f_lt a b = (case (f_key a, f_key b) of
      (Some (i, x), Some (j, y)) \<Rightarrow> i < j \<or> (i = j \<and> x < y)
    | _ \<Rightarrow> False)"

definition f_le :: "pyfloat \<Rightarrow> pyfloat \<Rightarrow> bool" where
  "f_le a b = (case (f_key a, f_key b) of
      (Some (i, x), Some (j, y)) \<Rightarrow> i < j \<or> (i = j \<and> x \<le> y)
    | _ \<Rightarrow> False)"

text \<open>
  Python compares an \<^verbatim>\<open>int\<close> with a \<^verbatim>\<open>float\<close> by their exact values, and two strings by
  their code points. Every other pair of the values modelled here raises TypeError.
\<close>

fun str_lt :: "string \<Rightarrow> string \<Rightarrow> bool" where
  "str_lt [] [] = False"
| "str_lt [] (d # ds) = True"
| "str_lt (c # cs) [] = False"
| "str_lt (c # cs) (d # ds) =
     ((of_char c :: nat) < of_char d \<or> (c = d \<and> str_lt cs ds))"

definition py_num :: "pyval \<Rightarrow> pyfloat option" where
  "py_num v = (case v of
      PyInt n \<Rightarrow> Some (Fin (of_int n))
    | PyFloat f \<Rightarrow> Some f
    | _ \<Rightarrow> None)"

definition py_lt :: "pyval \<Rightarrow> pyval \<Rightarrow> py_error + bool" where
  "py_lt a b = (case (py_num a, py_num b) of
      (Some x, Some y) \<Rightarrow> Inr (f_lt x y)
    | _ \<Rightarrow> (case (a, b) of
        (PyStr s, PyStr t) \<Rightarrow> Inr (str_lt s t)
      | _ \<Rightarrow> Inl TypeError))"

definition py_le :: "pyval \<Rightarrow> pyval \<Rightarrow> py_error + bool" where
  "py_le a b = (case (py_num a, py_num b) of
      (Some x, Some y) \<Rightarrow> Inr (f_le x y)
    | _ \<Rightarrow> (case (a, b) of
        (PyStr s, PyStr t) \<Rightarrow> Inr (s = t \<or> str_lt s t)
      | _ \<Rightarrow> Inl TypeError))"

definition py_gt :: "pyval \<Rightarrow> pyval \<Rightarrow> py_error + bool" where
  "py_gt a b = py_lt b a"

definition py_ge :: "pyval \<Rightarrow> pyval \<Rightarrow> py_error + bool" where
  "py_ge a b = py_le b a"

definition f_abs :: "pyfloat \<Rightarrow> pyfloat" where
  "f_abs x = (case x of
      Fin r \<Rightarrow> Fin \<bar>r\<bar>
    | NegZero \<Rightarrow> Fin 0
    | PosInf \<Rightarrow> PosInf
    | NegInf \<Rightarrow> PosInf
    | NaN \<Rightarrow> NaN)"


subsection \<open>Rounding to binary64\<close>

definition pow2 :: "int \<Rightarrow> rat" where
  "pow2 e = (if 0 \<le> e then 2 ^ nat e else 1 / 2 ^ nat (- e))"

text \<open>
  \<open>ilog2 x\<close> is the exponent \<open>e\<close> with \<open>2 ^ e \<le> x < 2 ^ (e + 1)\<close>, for \<open>0 < x\<close>:
  from the number of halvings of an integer.
\<close>

fun log2_floor :: "nat \<Rightarrow> nat" where
  "log2_floor n = (if n < 2 then 0 else Suc (log2_floor (n div 2)))"

declare log2_floor.simps [simp del]

definition log2_ceil :: "nat \<Rightarrow> nat" where
  "log2_ceil n = (if n \<le> 1 then 0 else Suc (log2_floor (n - 1)))"

definition ilog2 :: "rat \<Rightarrow> int" where
  "ilog2 x = (if 1 \<le> x then int (log2_floor (nat \<lfloor>x\<rfloor>))
     else - int (log2_ceil (nat \<lceil>1 / x\<rceil>)))"

definition round_half_even :: "rat \<Rightarrow> int" where
  "round_half_even x =
     (let f = \<lfloor>x\<rfloor>; d = x - of_int f
      in if d < 1 / 2 then f
         else if 1 / 2 < d then f + 1
         else if even f then f else f + 1)"

text \<open>
  The nearest binary64 number, ties to the even significand: 53 bits of significand, the
  least exponent -1022 (below it the spacing stays \<open>2 ^ -1074\<close>), and an infinity from
  \<open>2 ^ 1024\<close> on. A negative value that rounds to zero gives the negative zero.
\<close>

definition to_double :: "rat \<Rightarrow> pyfloat" where
  "to_double x =
     (if x = 0 then Fin 0
      else
        let a = \<bar>x\<bar>;
            e = max (ilog2 a) (- 1022);
            u = pow2 (e - 52);
            r = of_int (round_half_even (a / u)) * u
        in if 2 ^ 1024 \<le> r then (if 0 < x then PosInf else NegInf)
           else if r = 0 then (if 0 < x then Fin 0 else NegZero)
           else Fin (if 0 < x then r else - r))"

text \<open>
  \<open>x * c\<close> and \<open>x / c\<close> for a float \<open>x\<close> and a positive finite constant \<open>c\<close>
  (the source only multiplies and divides by 100).
\<close>

definition f_mul_pos :: "pyfloat \<Rightarrow> rat \<Rightarrow> pyfloat" where
  "f_mul_pos x c = (case x of Fin r \<Rightarrow> to_double (r * c) | _ \<Rightarrow> x)"

definition f_div_pos :: "pyfloat \<Rightarrow> rat \<Rightarrow> pyfloat" where
  "f_div_pos x c = (case x of Fin r \<Rightarrow> to_double (r / c) | _ \<Rightarrow> x)"

text \<open>
  \<^verbatim>\<open>raw / c\<close> for a positive \<^verbatim>\<open>int\<close> constant \<open>c\<close>: the quotient of two \<^verbatim>\<open>int\<close>s is the
  correctly rounded float, or OverflowError when it is out of range.
\<close>

definition py_truediv_pos :: "pyval \<Rightarrow> int \<Rightarrow> py_error + pyval" where
  "py_truediv_pos v c = (case v of
      PyInt n \<Rightarrow>
        (case to_double (of_int n / of_int c) of
           PosInf \<Rightarrow> Inl OverflowError
         | NegInf \<Rightarrow> Inl OverflowError
         | f \<Rightarrow> Inr (PyFloat f))
    | PyFloat f \<Rightarrow> Inr (PyFloat (f_div_pos f (of_int c)))
    | _ \<Rightarrow> Inl TypeError)"

section \<open>Value sanitizers\<close>

text \<open>
  \<^verbatim>\<open>
  def sanitize_dividend_yield(raw):
      if raw is None or raw < 0:
          return None
      if raw > 1000:
          return None
      if raw > 50:
          return None
      if raw > 1:
          normalized = raw / 100
          return normalized if normalized <= 0.25 else None
      return raw
  \<close>
\<close>

definition sanitize_dividend_yield :: "pyval \<Rightarrow> py_error + pyval" where
  "sanitize_dividend_yield raw =
     (if raw = PyNone then Inr PyNone
      else ebind (py_lt raw (PyInt 0)) (\<lambda>neg.
        if neg then Inr PyNone
        else ebind (py_gt raw (PyInt 1000)) (\<lambda>huge.
          if huge then Inr PyNone
          else ebind (py_gt raw (PyInt 50)) (\<lambda>big.
            if big then Inr PyNone
            else ebind (py_gt raw (PyInt 1)) (\<lambda>percent.
              if percent then
                ebind (py_truediv_pos raw 100) (\<lambda>normalized.
                  ebind (py_le normalized (PyFloat (Fin (1 / 4)))) (\<lambda>ok.
                    if ok then Inr normalized else Inr PyNone))
              else Inr raw)))))"

section \<open>Strings\<close>

text \<open>
  The white space of \<^verbatim>\<open>str.strip()\<close> and of the \<^verbatim>\<open>\s\<close> of a regular expression, among
  the code points below 256: the ASCII white space, the four separators 28 to 31, the next
  line character and the no-break space.
\<close>

definition is_space :: "char \<Rightarrow> bool" where
  "is_space c = (let n = (of_char c :: nat)
     in (9 \<le> n \<and> n \<le> 13) \<or> (28 \<le> n \<and> n \<le> 32) \<or> n = 133 \<or> n = 160)"

definition py_strip :: "string \<Rightarrow> string" where
  "py_strip s = rev (dropWhile is_space (rev (dropWhile is_space s)))"

text \<open>
  The white space that \<^verbatim>\<open>float()\<close> drops around a string is narrower: the ASCII white
  space (9 to 13 and 32) and, since a white space character above 127 is first replaced by a
  space, the next line character and the no-break space. The separators 28 to 31 stay, and
  make the conversion fail.
\<close>

definition is_float_space :: "char \<Rightarrow> bool" where
  "is_float_space c = (let n = (of_char c :: nat)
     in (9 \<le> n \<and> n \<le> 13) \<or> n = 32 \<or> n = 133 \<or> n = 160)"

definition float_strip :: "string \<Rightarrow> string" where
  "float_strip s = rev (dropWhile is_float_space (rev (dropWhile is_float_space s)))"

definition is_digit :: "char \<Rightarrow> bool" where
  "is_digit c = (let n = (of_char c :: nat) in 48 \<le> n \<and> n \<le> 57)"

definition digit_val :: "char \<Rightarrow> nat" where
  "digit_val c = of_char c - 48"

definition nat_of_digits :: "string \<Rightarrow> nat" where
  "nat_of_digits ds = foldl (\<lambda>a c. 10 * a + digit_val c) 0 ds"

text \<open>\<^verbatim>\<open>str.lower()\<close> on the code points below 256.\<close>

definition lower_char :: "char \<Rightarrow> char" where
  "lower_char c = (let n = (of_char c :: nat)
     in if (65 \<le> n \<and> n \<le> 90) \<or> (192 \<le> n \<and> n \<le> 222 \<and> n \<noteq> 215)
        then char_of (n + 32) else c)"

definition py_lower :: "string \<Rightarrow> string" where
  "py_lower s = map lower_char s"

section \<open>Conversion to float\<close>

text \<open>
  \<^verbatim>\<open>float(s)\<close> for a string: the white space of \<open>float_strip\<close> is dropped, an underscore may
  stand between two digits, and the text is a sign followed by \<^verbatim>\<open>inf\<close>, \<^verbatim>\<open>infinity\<close>,
  \<^verbatim>\<open>nan\<close> (in any case) or by a decimal number with an optional exponent. The value is
  rounded to binary64.
\<close>

fun drop_underscores :: "char \<Rightarrow> string \<Rightarrow> string option" where
  "drop_underscores prev [] = (if prev = CHR ''_'' then None else Some [])"
| "drop_underscores prev (c # cs) =
     (if c = CHR ''_'' then (if is_digit prev then drop_underscores c cs else None)
      else if prev = CHR ''_'' \<and> \<not> is_digit c then None
      else map_option ((#) c) (drop_underscores c cs))"

definition split_sign :: "string \<Rightarrow> bool \<times> string" where
  "split_sign s = (case s of
      c # cs \<Rightarrow> (if c = CHR ''-'' then (True, cs) else if c = CHR ''+'' then (False, cs) else (False, s))
    | [] \<Rightarrow> (False, []))"

definition parse_exponent :: "string \<Rightarrow> int option" where
  "parse_exponent s = (case s of
      [] \<Rightarrow> Some 0
    | c # cs \<Rightarrow>
        if c = CHR ''e'' \<or> c = CHR ''E'' then
          (let (neg, ds) = split_sign cs
           in if ds \<noteq> [] \<and> list_all is_digit ds
              then Some (if neg then - int (nat_of_digits ds) else int (nat_of_digits ds))
              else None)
        else None)"

definition parse_decimal :: "string \<Rightarrow> rat option" where
  "parse_decimal s =
     (let ip = takeWhile is_digit s; r1 = dropWhile is_digit s;
          fp = (case r1 of c # cs \<Rightarrow> if c = CHR ''.'' then takeWhile is_digit cs else [] | [] \<Rightarrow> []);
          r2 = (case r1 of c # cs \<Rightarrow> if c = CHR ''.'' then dropWhile is_digit cs else r1 | [] \<Rightarrow> [])
      in if ip = [] \<and> fp = [] then None
         else (case parse_exponent r2 of
             None \<Rightarrow> None
           | Some e \<Rightarrow>
               Some (of_nat (nat_of_digits (ip @ fp)) *
                 (let k = e - int (length fp)
                  in if 0 \<le> k then 10 ^ nat k else 1 / 10 ^ nat (- k)))))"

definition f_neg :: "pyfloat \<Rightarrow> pyfloat" where
  "f_neg x = (case x of
      Fin r \<Rightarrow> (if r = 0 then NegZero else Fin (- r))
    | NegZero \<Rightarrow> Fin 0
    | PosInf \<Rightarrow> NegInf
    | NegInf \<Rightarrow> PosInf
    | NaN \<Rightarrow> NaN)"

definition float_of_str :: "string \<Rightarrow> pyfloat option" where
  "float_of_str s =
     (case drop_underscores (CHR 0x00) (float_strip s) of
        None \<Rightarrow> None
      | Some t \<Rightarrow>
          (let (neg, body) = split_sign t; low = py_lower body;
               mag = (if low = ''inf'' \<or> low = ''infinity'' then Some PosInf
                      else if low = ''nan'' then Some NaN
                      else map_option to_double (parse_decimal body))
           in map_option (\<lambda>m. if neg then f_neg m else m) mag))"

text \<open>
  \<^verbatim>\<open>float(raw)\<close>: TypeError for \<^verbatim>\<open>None\<close> and for an object, ValueError for a string that
  is not a number, OverflowError for an \<^verbatim>\<open>int\<close> beyond the range of binary64.
\<close>

definition py_float :: "pyval \<Rightarrow> py_error + pyfloat" where
  "py_float v = (case v of
      PyNone \<Rightarrow> Inl TypeError
    | PyInt n \<Rightarrow>
        (case to_double (of_int n) of
           PosInf \<Rightarrow> Inl OverflowError
         | NegInf \<Rightarrow> Inl OverflowError
         | f \<Rightarrow> Inr f)
    | PyFloat f \<Rightarrow> Inr f
    | PyStr s \<Rightarrow> (case float_of_str s of None \<Rightarrow> Inl ValueError | Some f \<Rightarrow> Inr f)
    | PyObj kvs \<Rightarrow> Inl TypeError)"

text \<open>
  \<^verbatim>\<open>round(x)\<close> of a float, with no digits given: the nearest \<^verbatim>\<open>int\<close>, ties to the even
  one; OverflowError for an infinity, ValueError for a NaN.
\<close>

definition py_round :: "pyfloat \<Rightarrow> py_error + int" where
  "py_round x = (case x of
      Fin r \<Rightarrow> Inr (round_half_even r)
    | NegZero \<Rightarrow> Inr 0
    | PosInf \<Rightarrow> Inl OverflowError
    | NegInf \<Rightarrow> Inl OverflowError
    | NaN \<Rightarrow> Inl ValueError)"

section \<open>Format specifications\<close>

definition digit_char :: "nat \<Rightarrow> char" where
  "digit_char n = ''0123456789'' ! n"

fun nat_digits :: "nat \<Rightarrow> string" where
  "nat_digits n = (if n < 10 then [digit_char n] else nat_digits (n div 10) @ [digit_char (n mod 10)])"

declare nat_digits.simps [simp del]

text \<open>The thousands separator of the \<^verbatim>\<open>,\<close> option: a comma before every group of three digits.\<close>

function group3 :: "string \<Rightarrow> string" where
  "group3 s = (if length s \<le> 3 then s
     else group3 (take (length s - 3) s) @ '','' @ drop (length s - 3) s)"
  by pat_completeness auto
termination
  by (relation "measure length") auto

declare group3.simps [simp del]

text \<open>\<^verbatim>\<open>f"{n:,}"\<close> for an \<^verbatim>\<open>int\<close>.\<close>

definition fmt_int_commas :: "int \<Rightarrow> string" where
  "fmt_int_commas n = (if n < 0 then ''-'' else []) @ group3 (nat_digits (nat \<bar>n\<bar>))"

text \<open>
  The digits of a non-negative rational in fixed notation with \<open>d\<close> decimals, rounded
  half to even on the exact value, as the \<^verbatim>\<open>f\<close> presentation type does for a binary64.
\<close>

definition fixed_digits :: "rat \<Rightarrow> nat \<Rightarrow> bool \<Rightarrow> string" where
  "fixed_digits a d commas =
     (let m = nat (round_half_even (a * 10 ^ d));
          ip = nat_digits (m div 10 ^ d);
          fp = nat_digits (m mod 10 ^ d)
      in (if commas then group3 ip else ip) @
         (if d = 0 then [] else ''.'' @ replicate (d - length fp) (CHR ''0'') @ fp))"

definition fmt_fixed :: "pyfloat \<Rightarrow> nat \<Rightarrow> bool \<Rightarrow> string" where
  "fmt_fixed x d commas = (case x of
      Fin r \<Rightarrow> (if r < 0 then ''-'' else []) @ fixed_digits \<bar>r\<bar> d commas
    | NegZero \<Rightarrow> ''-'' @ fixed_digits 0 d commas
    | PosInf \<Rightarrow> ''inf''
    | NegInf \<Rightarrow> ''-inf''
    | NaN \<Rightarrow> ''nan'')"

text \<open>
  \<^verbatim>\<open>format(v, ".{d}f")\<close> and \<^verbatim>\<open>format(v, ",.{d}f")\<close>. An object refuses every format
  specification (TypeError), a string refuses the type \<^verbatim>\<open>f\<close> (ValueError), a precision
  that is negative or above \<open>2 ^ 31 - 1\<close> is a ValueError, and an \<^verbatim>\<open>int\<close> is converted
  to a float first.
\<close>

definition py_format_f :: "pyval \<Rightarrow> int \<Rightarrow> bool \<Rightarrow> py_error + string" where
  "py_format_f v decimals commas = (case v of
      PyNone \<Rightarrow> Inl TypeError
    | PyObj kvs \<Rightarrow> Inl TypeError
    | PyStr s \<Rightarrow> Inl ValueError
    | _ \<Rightarrow>
        if decimals < 0 \<or> 2147483647 < decimals then Inl ValueError
        else ebind (py_float v) (\<lambda>x. Inr (fmt_fixed x (nat decimals) commas)))"

section \<open>Numeric formatters\<close>

text \<open>
  \<^verbatim>\<open>
  def format_percent(raw, decimals=2, *, assume_fractional=False):
      if raw is None:
          return "N/A"
      try:
          value = float(raw)
      except (TypeError, ValueError):
          return "N/A"
      if assume_fractional or abs(value) <= 1:
          value *= 100
      return f"{value:.{decimals}f}%"
  \<close>
\<close>

definition format_percent :: "pyval \<Rightarrow> int \<Rightarrow> bool \<Rightarrow> py_error + string" where
  "format_percent raw decimals assume_fractional =
     (if raw = PyNone then Inr ''N/A''
      else (case py_float raw of
          Inl TypeError \<Rightarrow> Inr ''N/A''
        | Inl ValueError \<Rightarrow> Inr ''N/A''
        | Inl e \<Rightarrow> Inl e
        | Inr v \<Rightarrow>
            (let v' = (if assume_fractional \<or> f_le (f_abs v) (Fin 1) then f_mul_pos v 100 else v)
             in ebind (py_format_f (PyFloat v') decimals False) (\<lambda>s. Inr (s @ ''%'')))))"

text \<open>
  \<^verbatim>\<open>
  def format_ratio(raw, decimals=2):
      if raw is None:
          return "N/A"
      return f"{raw:.{decimals}f}"
  \<close>
\<close>

definition format_ratio :: "pyval \<Rightarrow> int \<Rightarrow> py_error + string" where
  "format_ratio raw decimals =
     (if raw = PyNone then Inr ''N/A'' else py_format_f raw decimals False)"

text \<open>
  \<^verbatim>\<open>
  def format_currency(raw):
      if raw is None:
          return "N/A"
      try:
          value = float(raw)
      except (TypeError, ValueError):
          return "N/A"
      return f"${value:,.2f}"
  \<close>
\<close>

definition format_currency :: "pyval \<Rightarrow> py_error + string" where
  "format_currency raw =
     (if raw = PyNone then Inr ''N/A''
      else (case py_float raw of
          Inl TypeError \<Rightarrow> Inr ''N/A''
        | Inl ValueError \<Rightarrow> Inr ''N/A''
        | Inl e \<Rightarrow> Inl e
        | Inr v \<Rightarrow> ebind (py_format_f (PyFloat v) 2 True) (\<lambda>s. Inr (''$'' @ s))))"

text \<open>
  \<^verbatim>\<open>
  def format_integer(raw):
      if raw is None:
          return "N/A"
      try:
          return f"{int(round(float(raw))):,}"
      except (TypeError, ValueError):
          return "N/A"
  \<close>
\<close>

definition format_integer :: "pyval \<Rightarrow> py_error + string" where
  "format_integer raw =
     (if raw = PyNone then Inr ''N/A''
      else (case ebind (py_float raw) (\<lambda>v. ebind (py_round v) (\<lambda>n. Inr (fmt_int_commas n))) of
          Inl TypeError \<Rightarrow> Inr ''N/A''
        | Inl ValueError \<Rightarrow> Inr ''N/A''
        | Inl e \<Rightarrow> Inl e
        | Inr s \<Rightarrow> Inr s))"

section \<open>Attribute access\<close>

text \<open>
  An object carries its attributes; \<^verbatim>\<open>None\<close>, numbers and strings have none of the
  attributes the source reads. \<^verbatim>\<open>v.name\<close> raises AttributeError for a missing attribute,
  \<^verbatim>\<open>getattr(v, name, default)\<close> returns the default.
\<close>

definition attrs :: "pyval \<Rightarrow> (string \<times> pyval) list" where
  "attrs v = (case v of PyObj kvs \<Rightarrow> kvs | _ \<Rightarrow> [])"


definition getattr_default :: "pyval \<Rightarrow> string \<Rightarrow> pyval \<Rightarrow> pyval" where
  "getattr_default v name dflt = (case map_of (attrs v) name of None \<Rightarrow> dflt | Some x \<Rightarrow> x)"

text \<open>Truth value testing (\<^verbatim>\<open>not value\<close>).\<close>

definition truthy :: "pyval \<Rightarrow> bool" where
  "truthy v = (case v of
      PyNone \<Rightarrow> False
    | PyInt n \<Rightarrow> n \<noteq> 0
    | PyFloat f \<Rightarrow> f \<noteq> Fin 0 \<and> f \<noteq> NegZero
    | PyStr s \<Rightarrow> s \<noteq> []
    | PyObj kvs \<Rightarrow> True)"

text \<open>
  \<^verbatim>\<open>value.strip()\<close>: only a string has the method. An object that happens to carry an
  attribute of that name cannot be called (TypeError).
\<close>

definition strip_method :: "pyval \<Rightarrow> py_error + string" where
  "strip_method v = (case v of
      PyStr s \<Rightarrow> Inr (py_strip s)
    | PyObj kvs \<Rightarrow> (if map_of kvs ''strip'' = None then Inl AttributeError else Inl TypeError)
    | _ \<Rightarrow> Inl AttributeError)"

section \<open>Record validators\<close>






section \<open>Dates\<close>

text \<open>
  A \<^verbatim>\<open>datetime.date\<close>: the proleptic Gregorian calendar, years 1 to 9999. The difference
  of two dates is the difference of their ordinals, in days.
\<close>

datatype pydate = Date (year: int) (month: int) (day: int)

definition is_leap :: "int \<Rightarrow> bool" where
  "is_leap y = (y mod 4 = 0 \<and> (if y mod 100 = 0 then y mod 400 = 0 else True))"

definition days_in_month :: "int \<Rightarrow> int \<Rightarrow> int" where
  "days_in_month y m =
     (if m = 2 then (if is_leap y then 29 else 28)
      else if m = 4 \<or> m = 6 \<or> m = 9 \<or> m = 11 then 30 else 31)"

definition valid_date :: "int \<Rightarrow> int \<Rightarrow> int \<Rightarrow> bool" where
  "valid_date y m d =
     (1 \<le> y \<and> y \<le> 9999 \<and> 1 \<le> m \<and> m \<le> 12 \<and> 1 \<le> d \<and> d \<le> days_in_month y m)"

definition days_before_year :: "int \<Rightarrow> int" where
  "days_before_year y = (y - 1) * 365 + (y - 1) div 4 - (y - 1) div 100 + (y - 1) div 400"

definition days_before_month :: "int \<Rightarrow> int \<Rightarrow> int" where
  "days_before_month y m =
     [0, 31, 59, 90, 120, 151, 181, 212, 243, 273, 304, 334] ! nat (m - 1) +
     (if 2 < m \<and> is_leap y then 1 else 0)"

definition toordinal :: "pydate \<Rightarrow> int" where
  "toordinal dt = days_before_year (year dt) + days_before_month (year dt) (month dt) + day dt"

text \<open>
  \<^verbatim>\<open>as_of - published_on > datetime.timedelta(days=max_age_days)\<close>: a \<^verbatim>\<open>timedelta\<close> holds at
  most 999999999 days in either direction and raises OverflowError beyond.
\<close>

definition older_than :: "pydate \<Rightarrow> pydate \<Rightarrow> int \<Rightarrow> py_error + bool" where
  "older_than as_of dt max_age_days =
     (if max_age_days < - 999999999 \<or> 999999999 < max_age_days then Inl OverflowError
      else Inr (max_age_days < toordinal as_of - toordinal dt))"

section \<open>Parsing dates\<close>

text \<open>
  \<^verbatim>\<open>datetime.strptime(value, fmt)\<close> compiles the format to a regular expression, matched
  at the start of the text without regard to case; text left over after the match, or no
  match, is a ValueError. A directive is a list of alternatives tried in order, each a
  sequence of character ranges; white space in the format stands for \<^verbatim>\<open>\s+\<close>. The
  matcher returns every way to match, in the order in which the backtracking of the
  regular expression finds them, so that the first one is the match.
\<close>

datatype char_class = Rng char char

definition in_class :: "char_class \<Rightarrow> char \<Rightarrow> bool" where
  "in_class k c = (case k of Rng a b \<Rightarrow> (of_char a :: nat) \<le> of_char c \<and> (of_char c :: nat) \<le> of_char b)"

datatype directive = Dir "char_class list list" | Lit char | Spaces

fun match_seq :: "char_class list \<Rightarrow> string \<Rightarrow> (string \<times> string) option" where
  "match_seq [] s = Some ([], s)"
| "match_seq (k # ks) [] = None"
| "match_seq (k # ks) (c # cs) =
     (if in_class k c then map_option (\<lambda>(m, r). (c # m, r)) (match_seq ks cs) else None)"

fun match_format :: "directive list \<Rightarrow> string \<Rightarrow> (string list \<times> string) list" where
  "match_format [] s = [([], s)]"
| "match_format (Dir alts # fs) s =
     concat (map (\<lambda>alt. case match_seq alt s of
         None \<Rightarrow> []
       | Some (m, r) \<Rightarrow> map (\<lambda>(ms, r'). (m # ms, r')) (match_format fs r)) alts)"
| "match_format (Lit c # fs) s = (case s of
       [] \<Rightarrow> []
     | x # xs \<Rightarrow> if lower_char x = lower_char c then match_format fs xs else [])"
| "match_format (Spaces # fs) s =
     concat (map (\<lambda>k. match_format fs (drop k s)) (rev [1..<Suc (length (takeWhile is_space s))]))"

definition digit :: char_class where
  "digit = Rng (CHR ''0'') (CHR ''9'')"

definition just :: "char \<Rightarrow> char_class" where
  "just c = Rng c c"

text \<open>
  The directives, as \<^verbatim>\<open>_strptime.TimeRE\<close> defines them:
  \<^verbatim>\<open>%Y\<close> is \<^verbatim>\<open>\d\d\d\d\<close>, \<^verbatim>\<open>%m\<close> is \<^verbatim>\<open>1[0-2]|0[1-9]|[1-9]\<close>,
  \<^verbatim>\<open>%d\<close> is \<^verbatim>\<open>3[0-1]|[1-2]\d|0[1-9]|[1-9]| [1-9]\<close>, \<^verbatim>\<open>%H\<close> is \<^verbatim>\<open>2[0-3]|[0-1]\d|\d\<close>,
  \<^verbatim>\<open>%M\<close> is \<^verbatim>\<open>[0-5]\d|\d\<close> and \<^verbatim>\<open>%S\<close> is \<^verbatim>\<open>6[0-1]|[0-5]\d|\d\<close>.
\<close>

definition dir_Y :: directive where
  "dir_Y = Dir [[digit, digit, digit, digit]]"

definition dir_m :: directive where
  "dir_m = Dir [[just (CHR ''1''), Rng (CHR ''0'') (CHR ''2'')],
                [just (CHR ''0''), Rng (CHR ''1'') (CHR ''9'')],
                [Rng (CHR ''1'') (CHR ''9'')]]"

definition dir_d :: directive where
  "dir_d = Dir [[just (CHR ''3''), Rng (CHR ''0'') (CHR ''1'')],
                [Rng (CHR ''1'') (CHR ''2''), digit],
                [just (CHR ''0''), Rng (CHR ''1'') (CHR ''9'')],
                [Rng (CHR ''1'') (CHR ''9'')],
                [just (CHR '' ''), Rng (CHR ''1'') (CHR ''9'')]]"

definition dir_H :: directive where
  "dir_H = Dir [[just (CHR ''2''), Rng (CHR ''0'') (CHR ''3'')],
                [Rng (CHR ''0'') (CHR ''1''), digit],
                [digit]]"

definition dir_M :: directive where
  "dir_M = Dir [[Rng (CHR ''0'') (CHR ''5''), digit], [digit]]"

definition dir_S :: directive where
  "dir_S = Dir [[just (CHR ''6''), Rng (CHR ''0'') (CHR ''1'')],
                [Rng (CHR ''0'') (CHR ''5''), digit],
                [digit]]"

text \<open>The four formats of the source; each starts with year, month and day.\<close>

definition fmt_date :: "directive list" where
  "fmt_date = [dir_Y, Lit (CHR ''-''), dir_m, Lit (CHR ''-''), dir_d]"

definition fmt_time :: "directive list" where
  "fmt_time = [dir_H, Lit (CHR '':''), dir_M, Lit (CHR '':''), dir_S]"

definition fmt_iso_z :: "directive list" where
  "fmt_iso_z = fmt_date @ [Lit (CHR ''T'')] @ fmt_time @ [Lit (CHR ''Z'')]"

definition fmt_iso :: "directive list" where
  "fmt_iso = fmt_date @ [Lit (CHR ''T'')] @ fmt_time"

definition fmt_space :: "directive list" where
  "fmt_space = fmt_date @ [Spaces] @ fmt_time"

definition field_val :: "string \<Rightarrow> int" where
  "field_val m = int (nat_of_digits (filter is_digit m))"

text \<open>
  \<^verbatim>\<open>datetime.datetime.strptime(value, fmt).date()\<close>, \<open>None\<close> for a ValueError: no match,
  text left over, a day that the month does not have, the year 0, or a second above 59
  (which the pattern of \<^verbatim>\<open>%S\<close> lets through and \<^verbatim>\<open>datetime\<close> refuses).
\<close>

definition strptime_date :: "directive list \<Rightarrow> string \<Rightarrow> pydate option" where
  "strptime_date fmt s = (case match_format fmt s of
      [] \<Rightarrow> None
    | (ms, rest) # others \<Rightarrow>
        if rest \<noteq> [] then None
        else (let vs = map field_val ms; y = vs ! 0; m = vs ! 1; d = vs ! 2
              in if valid_date y m d \<and> (if length vs = 6 then vs ! 5 \<le> 59 else True)
                 then Some (Date y m d) else None))"

fun first_format :: "directive list list \<Rightarrow> string \<Rightarrow> pydate option" where
  "first_format [] s = None"
| "first_format (fmt # fmts) s =
     (case strptime_date fmt s of Some dt \<Rightarrow> Some dt | None \<Rightarrow> first_format fmts s)"

definition replace_Z :: "string \<Rightarrow> string" where
  "replace_Z s = concat (map (\<lambda>c. if c = CHR ''Z'' then ''+00:00'' else [c]) s)"

text \<open>
  \<^verbatim>\<open>
  def _parse_date(value):
      if not value:
          return None
      value = value.strip()
      for fmt in (...):
          try:
              return datetime.datetime.strptime(value, fmt).date()
          except ValueError:
              continue
      try:
          return datetime.datetime.fromisoformat(value.replace("Z", "+00:00")).date()
      except ValueError:
          return None
  \<close>
  The grammar that \<^verbatim>\<open>datetime.fromisoformat\<close> accepts depends on the version of Python.
  It is the parameter \<open>fromiso\<close>: the date of the text, \<open>None\<close> for a ValueError.
\<close>

definition parse_with ::
  "directive list list \<Rightarrow> (string \<Rightarrow> pydate option) \<Rightarrow> pyval \<Rightarrow> py_error + pydate option" where
  "parse_with fmts fromiso v =
     (if \<not> truthy v then Inr None
      else ebind (strip_method v) (\<lambda>s.
        case first_format fmts s of
          Some dt \<Rightarrow> Inr (Some dt)
        | None \<Rightarrow> Inr (fromiso (replace_Z s))))"

text \<open>\<^verbatim>\<open>_parse_date\<close> of \<^verbatim>\<open>filter_recent_articles\<close> and \<^verbatim>\<open>_parse\<close> of \<^verbatim>\<open>filter_recent_transactions\<close>.\<close>

definition parse_date :: "(string \<Rightarrow> pydate option) \<Rightarrow> pyval \<Rightarrow> py_error + pydate option" where
  "parse_date = parse_with [fmt_date, fmt_iso_z, fmt_iso, fmt_space]"

definition parse :: "(string \<Rightarrow> pydate option) \<Rightarrow> pyval \<Rightarrow> py_error + pydate option" where
  "parse = parse_with [fmt_date, fmt_iso_z, fmt_space]"

section \<open>Temporal filters\<close>

text \<open>
  \<^verbatim>\<open>
  def filter_recent_articles(articles, as_of, max_age_days=120):
      recent = []
      for article in articles or []:
          published_on = _parse_date(getattr(article, "published_date", ""))
          if not published_on:
              continue
          if as_of - published_on > datetime.timedelta(days=max_age_days):
              continue
          recent.append(article)
      return recent
  \<close>
  The collection is a sequence or \<^verbatim>\<open>None\<close>. The loop is a recursion over the items that
  carries the list \<^verbatim>\<open>recent\<close>; the field read and its parser are arguments, since
  \<^verbatim>\<open>filter_recent_transactions\<close> runs the same loop on another field.
\<close>

definition or_empty :: "pyval list option \<Rightarrow> pyval list" where
  "or_empty xs = (case xs of None \<Rightarrow> [] | Some ys \<Rightarrow> ys)"

fun recent_loop ::
  "(pyval \<Rightarrow> py_error + pydate option) \<Rightarrow> string \<Rightarrow> pydate \<Rightarrow> int \<Rightarrow>
   pyval list \<Rightarrow> pyval list \<Rightarrow> py_error + pyval list" where
  "recent_loop p field as_of max_age_days [] recent = Inr recent"
| "recent_loop p field as_of max_age_days (item # items) recent =
     (case p (getattr_default item field (PyStr [])) of
        Inl e \<Rightarrow> Inl e
      | Inr None \<Rightarrow> recent_loop p field as_of max_age_days items recent
      | Inr (Some dt) \<Rightarrow>
          (case older_than as_of dt max_age_days of
             Inl e \<Rightarrow> Inl e
           | Inr old \<Rightarrow>
               if old then recent_loop p field as_of max_age_days items recent
               else recent_loop p field as_of max_age_days items (recent @ [item])))"

definition filter_recent_articles ::
  "(string \<Rightarrow> pydate option) \<Rightarrow> pyval list option \<Rightarrow> pydate \<Rightarrow> int \<Rightarrow> py_error + pyval list" where
  "filter_recent_articles fromiso articles as_of max_age_days =
     recent_loop (parse_date fromiso) ''published_date'' as_of max_age_days (or_empty articles) []"

text \<open>
  \<^verbatim>\<open>
  PLACEHOLDER_NAMES = {"john doe", "jane smith", "alice johnson"}

  def filter_valid_transactions(transactions):
      valid = []
      for txn in transactions or []:
          name = getattr(txn, "name", "").strip().lower()
          if not name or name in PLACEHOLDER_NAMES:
              continue
          valid.append(txn)
      return valid
  \<close>
\<close>

definition PLACEHOLDER_NAMES :: "string list" where
  "PLACEHOLDER_NAMES = [''john doe'', ''jane smith'', ''alice johnson'']"

fun valid_loop :: "pyval list \<Rightarrow> pyval list \<Rightarrow> py_error + pyval list" where
  "valid_loop [] valid = Inr valid"
| "valid_loop (txn # txns) valid =
     (case strip_method (getattr_default txn ''name'' (PyStr [])) of
        Inl e \<Rightarrow> Inl e
      | Inr s \<Rightarrow>
          (let name = py_lower s
           in if name = [] \<or> name \<in> set PLACEHOLDER_NAMES then valid_loop txns valid
              else valid_loop txns (valid @ [txn])))"

definition filter_valid_transactions :: "pyval list option \<Rightarrow> py_error + pyval list" where
  "filter_valid_transactions transactions = valid_loop (or_empty transactions) []"

text \<open>
  \<^verbatim>\<open>
  def filter_recent_transactions(transactions, as_of, max_age_days=365):
      recent = []
      for txn in filter_valid_transactions(transactions):
          txn_date = _parse(getattr(txn, "transaction_date", ""))
          if not txn_date:
              continue
          if as_of - txn_date > datetime.timedelta(days=max_age_days):
              continue
          recent.append(txn)
      return recent
  \<close>
\<close>

definition filter_recent_transactions ::
  "(string \<Rightarrow> pydate option) \<Rightarrow> pyval list option \<Rightarrow> pydate \<Rightarrow> int \<Rightarrow> py_error + pyval list" where
  "filter_recent_transactions fromiso transactions as_of max_age_days =
     ebind (filter_valid_transactions transactions) (\<lambda>valid.
       recent_loop (parse fromiso) ''transaction_date'' as_of max_age_days valid [])"
section \<open>Rounding: basic facts\<close>

lemma floor_rat_numeral_div [simp]:
  "\<lfloor>(numeral a :: rat) / numeral b\<rfloor> = numeral a div numeral b"
  using floor_divide_of_int_eq[of "numeral a" "numeral b", where ?'a = rat] by simp

lemma ceiling_rat_numeral_div [simp]:
  "\<lceil>(numeral a :: rat) / numeral b\<rceil> = - (- numeral a div numeral b)"
  using floor_divide_of_int_eq[of "- numeral a" "numeral b", where ?'a = rat]
  by (simp add: ceiling_def)

lemma round_half_even_nonneg: "0 \<le> x \<Longrightarrow> 0 \<le> round_half_even x"
  by (simp add: round_half_even_def Let_def)

lemma round_half_even_near: "\<bar>x - of_int (round_half_even x)\<bar> \<le> 1 / 2"
proof -
  have "of_int \<lfloor>x\<rfloor> \<le> x" and "x < of_int \<lfloor>x\<rfloor> + 1"
    by linarith+
  then show ?thesis
    by (auto simp: round_half_even_def Let_def)
qed

lemma round_half_even_tie:
  "\<bar>x - of_int (round_half_even x)\<bar> = 1 / 2 \<Longrightarrow> even (round_half_even x)"
proof -
  assume tie: "\<bar>x - of_int (round_half_even x)\<bar> = 1 / 2"
  have fl: "of_int \<lfloor>x\<rfloor> \<le> x" "x < of_int \<lfloor>x\<rfloor> + 1"
    by linarith+
  show ?thesis
  proof (cases "x - of_int \<lfloor>x\<rfloor> = 1 / 2")
    case True
    then show ?thesis by (simp add: round_half_even_def Let_def)
  next
    case False
    with tie fl show ?thesis
      by (auto simp: round_half_even_def Let_def split: if_splits)
  qed
qed

lemma round_half_even_of_int [simp]: "round_half_even (of_int k) = k"
  by (simp add: round_half_even_def Let_def)

lemma pow2_pos: "0 < pow2 e"
  by (simp add: pow2_def)

lemma ilog2_le_0: "x \<le> 1 \<Longrightarrow> ilog2 x \<le> 0"
  by (auto simp: ilog2_def log2_floor.simps)

lemma to_double_sign:
  assumes "0 < x"
  shows "to_double x = PosInf \<or> (\<exists>r. to_double x = Fin r \<and> 0 \<le> r)"
proof -
  define u where "u = pow2 (max (ilog2 \<bar>x\<bar>) (- 1022) - 52)"
  have "0 \<le> round_half_even (\<bar>x\<bar> / u)"
    using pow2_pos[of "max (ilog2 \<bar>x\<bar>) (- 1022) - 52"]
    by (intro round_half_even_nonneg) (simp add: u_def)
  then have "0 \<le> of_int (round_half_even (\<bar>x\<bar> / u)) * u"
    using pow2_pos[of "max (ilog2 \<bar>x\<bar>) (- 1022) - 52"] by (simp add: u_def)
  with assms show ?thesis
    by (auto simp: to_double_def Let_def u_def)
qed

lemma to_double_unit:
  assumes "0 < x" "x \<le> 1"
  shows "\<exists>r. to_double x = Fin r \<and> 0 \<le> r"
proof -
  define e where "e = max (ilog2 \<bar>x\<bar>) (- 1022)"
  define u where "u = pow2 (e - 52)"
  have "e \<le> 0"
    using ilog2_le_0[of "\<bar>x\<bar>"] assms by (simp add: e_def)
  then have u1: "u \<le> 1" and u0: "0 < u"
    by (simp_all add: u_def pow2_def)
  have "of_int (round_half_even (\<bar>x\<bar> / u)) \<le> \<bar>x\<bar> / u + 1 / 2"
    using round_half_even_near[of "\<bar>x\<bar> / u"] by linarith
  then have "of_int (round_half_even (\<bar>x\<bar> / u)) * u \<le> (\<bar>x\<bar> / u + 1 / 2) * u"
    using u0 by (simp only: mult_le_cancel_right_pos)
  also have "\<dots> = \<bar>x\<bar> + u / 2"
    using u0 by (simp add: field_simps)
  also have "\<dots> \<le> 2"
    using assms u1 by simp
  finally have "of_int (round_half_even (\<bar>x\<bar> / u)) * u < 2 ^ 1024"
    by (rule le_less_trans) simp
  then have "to_double x \<noteq> PosInf"
    using assms by (auto simp: to_double_def Let_def u_def e_def)
  with to_double_sign[OF assms(1)] show ?thesis
    by blast
qed
section \<open>Evaluating the rounding on concrete values\<close>

lemma to_double_pos:
  assumes "0 < x" "ilog2 x = e" "max e (- 1022) = e'"
    and "round_half_even (x / pow2 (e' - 52)) = n"
    and "of_int n * pow2 (e' - 52) = r" "r < 2 ^ 1024" "r \<noteq> 0"
  shows "to_double x = Fin r"
  using assms by (simp add: to_double_def Let_def)

lemmas round_eval = ilog2_def log2_floor.simps log2_ceil_def pow2_def round_half_even_def Let_def

lemma to_double_50: "to_double 50 = Fin 50"
  by (rule to_double_pos[where e = 5 and e' = 5 and n = 7036874417766400])
     (simp_all add: round_eval)

text \<open>The binary64 number nearest to 0.04, which is what the literal \<^verbatim>\<open>0.04\<close> denotes.\<close>

lemma to_double_4_percent: "to_double (1 / 25) = Fin (5764607523034235 / 144115188075855872)"
  by (rule to_double_pos[where e = "- 5" and e' = "- 5" and n = 5764607523034235])
     (simp_all add: round_eval)

section \<open>The dividend yield sanitizer\<close>

lemmas cmp_defs = py_lt_def py_le_def py_gt_def py_ge_def py_num_def f_lt_def f_le_def f_key_def

lemma sanitize_none: "sanitize_dividend_yield PyNone = Inr PyNone"
  by (simp add: sanitize_dividend_yield_def)

lemma sanitize_negative:
  "py_lt raw (PyInt 0) = Inr True \<Longrightarrow> sanitize_dividend_yield raw = Inr PyNone"
  by (simp add: sanitize_dividend_yield_def ebind_def)

lemma sanitize_above_50:
  assumes "py_gt raw (PyInt 50) = Inr True"
  shows "sanitize_dividend_yield raw = Inr PyNone"
proof (cases raw)
  case (PyInt n)
  with assms show ?thesis
    by (simp add: sanitize_dividend_yield_def ebind_def cmp_defs)
next
  case (PyFloat f)
  with assms show ?thesis
    by (cases f) (simp_all add: sanitize_dividend_yield_def ebind_def cmp_defs)
qed (use assms in \<open>simp_all add: cmp_defs\<close>)

lemma sanitize_percent:
  assumes "py_gt raw (PyInt 1) = Inr True" "py_le raw (PyInt 50) = Inr True"
  shows "\<exists>n. py_truediv_pos raw 100 = Inr (PyFloat n) \<and>
    sanitize_dividend_yield raw = Inr (if f_le n (Fin (1 / 4)) then PyFloat n else PyNone)"
proof (cases raw)
  case (PyInt k)
  with assms have k: "1 < k" "k \<le> 50"
    by (simp_all add: cmp_defs)
  then have "0 < (of_int k :: rat) / 100" "(of_int k :: rat) / 100 \<le> 1"
    by simp_all
  from to_double_unit[OF this] obtain r where "to_double (of_int k / 100) = Fin r"
    by blast
  with PyInt k show ?thesis
    by (simp add: sanitize_dividend_yield_def ebind_def cmp_defs py_truediv_pos_def)
next
  case (PyFloat f)
  with assms show ?thesis
    by (cases f)
      (simp_all add: sanitize_dividend_yield_def ebind_def cmp_defs py_truediv_pos_def f_div_pos_def)
qed (use assms in \<open>simp_all add: cmp_defs\<close>)

lemma sanitize_fraction:
  assumes "py_ge raw (PyInt 0) = Inr True" "py_le raw (PyInt 1) = Inr True"
  shows "sanitize_dividend_yield raw = Inr raw"
proof (cases raw)
  case (PyInt k)
  with assms show ?thesis
    by (simp add: sanitize_dividend_yield_def ebind_def cmp_defs)
next
  case (PyFloat f)
  with assms show ?thesis
    by (cases f) (simp_all add: sanitize_dividend_yield_def ebind_def cmp_defs)
qed (use assms in \<open>simp_all add: cmp_defs\<close>)

lemma sanitize_int_4:
  "sanitize_dividend_yield (PyInt 4) = Inr (PyFloat (Fin (5764607523034235 / 144115188075855872)))"
  by (simp add: sanitize_dividend_yield_def ebind_def cmp_defs py_truediv_pos_def
      to_double_4_percent)

lemma sanitize_float_4:
  "sanitize_dividend_yield (PyFloat (Fin 4)) =
     Inr (PyFloat (Fin (5764607523034235 / 144115188075855872)))"
  by (simp add: sanitize_dividend_yield_def ebind_def cmp_defs py_truediv_pos_def f_div_pos_def
      to_double_4_percent)

lemma sanitize_examples:
  "sanitize_dividend_yield (PyInt (- 1)) = Inr PyNone"
  "sanitize_dividend_yield (PyFloat (Fin (5764607523034235 / 144115188075855872))) =
     Inr (PyFloat (Fin (5764607523034235 / 144115188075855872)))"
  "sanitize_dividend_yield (PyInt 60) = Inr PyNone"
  "sanitize_dividend_yield (PyInt 2000) = Inr PyNone"
  by (simp_all add: sanitize_dividend_yield_def ebind_def cmp_defs)

text \<open>
  C5. \<^verbatim>\<open>sanitize_dividend_yield\<close> follows the case analysis of the specification: an
  absent or negative value gives \<^verbatim>\<open>None\<close>; a value above 50 gives \<^verbatim>\<open>None\<close>; a value
  above 1 and at most 50 is divided by 100, and the quotient is returned when it is at
  most 0.25 and \<^verbatim>\<open>None\<close> otherwise; a value from 0 to 1 is returned unchanged. On the
  examples: -1 gives \<^verbatim>\<open>None\<close>, 0.04 gives 0.04, 4 gives 0.04 (for the \<^verbatim>\<open>int\<close> and for the
  \<^verbatim>\<open>float\<close>), 60 and 2000 give \<^verbatim>\<open>None\<close>. Here 0.04 is the binary64 number that the
  literal denotes.
\<close>

theorem sanitize_dividend_yield_cases:
  "(raw = PyNone \<longrightarrow> sanitize_dividend_yield raw = Inr PyNone) \<and>
   (py_lt raw (PyInt 0) = Inr True \<longrightarrow> sanitize_dividend_yield raw = Inr PyNone) \<and>
   (py_gt raw (PyInt 50) = Inr True \<longrightarrow> sanitize_dividend_yield raw = Inr PyNone) \<and>
   (py_gt raw (PyInt 1) = Inr True \<and> py_le raw (PyInt 50) = Inr True \<longrightarrow>
      (\<exists>n. py_truediv_pos raw 100 = Inr (PyFloat n) \<and>
         sanitize_dividend_yield raw = Inr (if f_le n (Fin (1 / 4)) then PyFloat n else PyNone))) \<and>
   (py_ge raw (PyInt 0) = Inr True \<and> py_le raw (PyInt 1) = Inr True \<longrightarrow>
      sanitize_dividend_yield raw = Inr raw) \<and>
   sanitize_dividend_yield (PyInt (- 1)) = Inr PyNone \<and>
   sanitize_dividend_yield (PyFloat (Fin (5764607523034235 / 144115188075855872))) =
     Inr (PyFloat (Fin (5764607523034235 / 144115188075855872))) \<and>
   sanitize_dividend_yield (PyInt 4) =
     Inr (PyFloat (Fin (5764607523034235 / 144115188075855872))) \<and>
   sanitize_dividend_yield (PyFloat (Fin 4)) =
     Inr (PyFloat (Fin (5764607523034235 / 144115188075855872))) \<and>
   sanitize_dividend_yield (PyInt 60) = Inr PyNone \<and>
   sanitize_dividend_yield (PyInt 2000) = Inr PyNone"
proof -
  have a: "raw = PyNone \<longrightarrow> sanitize_dividend_yield raw = Inr PyNone"
    using sanitize_none by simp
  have b: "py_lt raw (PyInt 0) = Inr True \<longrightarrow> sanitize_dividend_yield raw = Inr PyNone"
    using sanitize_negative by simp
  have c: "py_gt raw (PyInt 50) = Inr True \<longrightarrow> sanitize_dividend_yield raw = Inr PyNone"
    using sanitize_above_50 by simp
  have d: "py_gt raw (PyInt 1) = Inr True \<and> py_le raw (PyInt 50) = Inr True \<longrightarrow>
      (\<exists>n. py_truediv_pos raw 100 = Inr (PyFloat n) \<and>
         sanitize_dividend_yield raw = Inr (if f_le n (Fin (1 / 4)) then PyFloat n else PyNone))"
    using sanitize_percent[of raw] by (intro impI) (elim conjE)
  have e: "py_ge raw (PyInt 0) = Inr True \<and> py_le raw (PyInt 1) = Inr True \<longrightarrow>
      sanitize_dividend_yield raw = Inr raw"
    using sanitize_fraction[of raw] by (intro impI) (elim conjE)
  show ?thesis
    by (intro conjI a b c d e sanitize_int_4 sanitize_float_4 sanitize_examples)
qed

theorem sanitize_dividend_yield_cases_witness:
  "py_gt (PyFloat (Fin 30)) (PyInt 1) = Inr True \<and>
   py_le (PyFloat (Fin 30)) (PyInt 50) = Inr True \<and>
   py_ge (PyInt 1) (PyInt 0) = Inr True \<and> py_le (PyInt 1) (PyInt 1) = Inr True \<and>
   py_lt (PyFloat NegInf) (PyInt 0) = Inr True \<and>
   py_gt (PyInt 51) (PyInt 50) = Inr True \<and>
   (\<exists>n. py_truediv_pos (PyFloat (Fin 30)) 100 = Inr (PyFloat n) \<and>
      sanitize_dividend_yield (PyFloat (Fin 30)) =
        Inr (if f_le n (Fin (1 / 4)) then PyFloat n else PyNone)) \<and>
   sanitize_dividend_yield (PyInt 1) = Inr (PyInt 1) \<and>
   sanitize_dividend_yield (PyFloat NegInf) = Inr PyNone \<and>
   sanitize_dividend_yield (PyInt 51) = Inr PyNone \<and>
   sanitize_dividend_yield PyNone = Inr PyNone"
proof -
  have h1: "py_gt (PyFloat (Fin 30)) (PyInt 1) = Inr True \<and>
      py_le (PyFloat (Fin 30)) (PyInt 50) = Inr True"
    by (simp add: cmp_defs)
  have h2: "py_ge (PyInt 1) (PyInt 0) = Inr True \<and> py_le (PyInt 1) (PyInt 1) = Inr True"
    by (simp add: cmp_defs)
  have h3: "py_lt (PyFloat NegInf) (PyInt 0) = Inr True"
    by (simp add: cmp_defs)
  have h4: "py_gt (PyInt 51) (PyInt 50) = Inr True"
    by (simp add: cmp_defs)
  note t1 = sanitize_dividend_yield_cases[of "PyFloat (Fin 30)", THEN conjunct2, THEN conjunct2,
      THEN conjunct2, THEN conjunct1, rule_format, OF h1]
  note t2 = sanitize_dividend_yield_cases[of "PyInt 1", THEN conjunct2, THEN conjunct2,
      THEN conjunct2, THEN conjunct2, THEN conjunct1, rule_format, OF h2]
  note t3 = sanitize_dividend_yield_cases[of "PyFloat NegInf", THEN conjunct2, THEN conjunct1,
      rule_format, OF h3]
  note t4 = sanitize_dividend_yield_cases[of "PyInt 51", THEN conjunct2, THEN conjunct2,
      THEN conjunct1, rule_format, OF h4]
  note t5 = sanitize_dividend_yield_cases[of PyNone, THEN conjunct1, rule_format, OF refl]
  show ?thesis
    by (intro conjI h1[THEN conjunct1] h1[THEN conjunct2] h2[THEN conjunct1] h2[THEN conjunct2]
        h3 h4 t1 t2 t3 t4 t5)
qed
lemma sanitize_total:
  assumes "raw = PyNone \<or> py_num raw \<noteq> None"
  shows "\<exists>v. sanitize_dividend_yield raw = Inr v"
proof (cases raw)
  case (PyInt k)
  show ?thesis
  proof (cases "1 < k \<and> k \<le> 50")
    case True
    then have "py_gt raw (PyInt 1) = Inr True" "py_le raw (PyInt 50) = Inr True"
      using PyInt by (simp_all add: cmp_defs)
    from sanitize_percent[OF this] show ?thesis
      by blast
  next
    case False
    then show ?thesis
      using PyInt by (auto simp: sanitize_dividend_yield_def ebind_def cmp_defs)
  qed
next
  case (PyFloat f)
  then show ?thesis
    by (cases f)
      (simp_all add: sanitize_dividend_yield_def ebind_def cmp_defs py_truediv_pos_def)
qed (use assms in \<open>simp_all add: sanitize_none py_num_def\<close>)

lemma sanitize_percent_range:
  assumes "sanitize_dividend_yield raw = Inr v" "py_gt raw (PyInt 1) = Inr True"
  shows "v = PyNone \<or> (\<exists>x. v = PyFloat x \<and> f_le (Fin 0) x \<and> f_le x (Fin (1 / 4)))"
proof (cases "py_le raw (PyInt 50) = Inr True")
  case True
  from sanitize_percent[OF assms(2) True] obtain n where
    n: "py_truediv_pos raw 100 = Inr (PyFloat n)" and
    r: "sanitize_dividend_yield raw = Inr (if f_le n (Fin (1 / 4)) then PyFloat n else PyNone)"
    by blast
  have pos: "f_le n (Fin (1 / 4)) \<Longrightarrow> f_le (Fin 0) n"
  proof (cases raw)
    case (PyInt k)
    with assms(2) have "0 < (of_int k :: rat) / 100"
      by (simp add: cmp_defs)
    from to_double_sign[OF this] n PyInt show ?thesis
      by (auto simp: py_truediv_pos_def cmp_defs)
  next
    case (PyFloat f)
    show ?thesis
    proof (cases f)
      case (Fin q)
      with assms(2) PyFloat have "0 < q / 100"
        by (simp add: cmp_defs)
      from to_double_sign[OF this] n PyFloat Fin show ?thesis
        by (auto simp: py_truediv_pos_def f_div_pos_def cmp_defs)
    qed (use assms(2) PyFloat n in \<open>auto simp: cmp_defs py_truediv_pos_def f_div_pos_def\<close>)
  qed (use assms(2) in \<open>simp_all add: cmp_defs\<close>)
  with r assms(1) show ?thesis
    by (auto split: if_splits)
next
  case False
  have "py_gt raw (PyInt 50) = Inr True"
  proof (cases raw)
    case (PyInt k)
    with False show ?thesis by (simp add: cmp_defs)
  next
    case (PyFloat f)
    with False assms(2) show ?thesis
      by (cases f) (simp_all add: cmp_defs)
  qed (use assms(2) in \<open>simp_all add: cmp_defs\<close>)
  from sanitize_above_50[OF this] assms(1) show ?thesis
    by simp
qed

lemma sanitize_unit_range:
  assumes "sanitize_dividend_yield raw = Inr v" "raw \<noteq> PyFloat NaN"
  shows "v = PyNone \<or> (\<exists>x. py_num v = Some x \<and> f_le (Fin 0) x \<and> f_le x (Fin 1))"
proof (cases "py_gt raw (PyInt 1) = Inr True")
  case True
  from sanitize_percent_range[OF assms(1) True] show ?thesis
  proof
    assume "v = PyNone"
    then show ?thesis by simp
  next
    assume "\<exists>x. v = PyFloat x \<and> f_le (Fin 0) x \<and> f_le x (Fin (1 / 4))"
    then obtain x where x: "v = PyFloat x" "f_le (Fin 0) x" "f_le x (Fin (1 / 4))"
      by blast
    then have "f_le x (Fin 1)"
      by (cases x) (simp_all add: f_le_def f_key_def)
    with x show ?thesis
      by (simp add: py_num_def)
  qed
next
  case False
  show ?thesis
  proof (cases raw)
    case (PyInt k)
    with assms(1) False show ?thesis
      by (auto simp: sanitize_dividend_yield_def ebind_def cmp_defs split: if_splits)
  next
    case (PyFloat f)
    with assms False show ?thesis
      by (cases f)
        (auto simp: sanitize_dividend_yield_def ebind_def cmp_defs split: if_splits)
  qed (use assms(1) in \<open>auto simp: sanitize_dividend_yield_def ebind_def cmp_defs\<close>)
qed

text \<open>
  C2, as the specification states it, fails: a value between 0.25 and 1 is returned
  unchanged, and so is a NaN, which compares false with every bound.
\<close>

theorem sanitize_dividend_yield_exceeds_quarter:
  "sanitize_dividend_yield (PyFloat (Fin (1 / 2))) = Inr (PyFloat (Fin (1 / 2))) \<and>
   \<not> f_le (Fin (1 / 2)) (Fin (1 / 4)) \<and>
   sanitize_dividend_yield (PyFloat NaN) = Inr (PyFloat NaN)"
  by (simp add: sanitize_dividend_yield_def ebind_def cmp_defs)

text \<open>
  C2, amended. For every input that is \<^verbatim>\<open>None\<close> or a number, \<^verbatim>\<open>sanitize_dividend_yield\<close>
  returns (it does not raise). What it returns for an input other than a NaN is \<^verbatim>\<open>None\<close>
  or a number between 0 and 1; when the input is above 1, and so was read as a percentage,
  it is \<^verbatim>\<open>None\<close> or a float between 0 and 0.25.
\<close>

theorem sanitize_dividend_yield_range:
  "((raw = PyNone \<or> py_num raw \<noteq> None) \<longrightarrow> (\<exists>v. sanitize_dividend_yield raw = Inr v)) \<and>
   (sanitize_dividend_yield raw = Inr v \<and> raw \<noteq> PyFloat NaN \<longrightarrow>
      v = PyNone \<or> (\<exists>x. py_num v = Some x \<and> f_le (Fin 0) x \<and> f_le x (Fin 1))) \<and>
   (sanitize_dividend_yield raw = Inr v \<and> py_gt raw (PyInt 1) = Inr True \<longrightarrow>
      v = PyNone \<or> (\<exists>x. v = PyFloat x \<and> f_le (Fin 0) x \<and> f_le x (Fin (1 / 4))))"
proof -
  have a: "(raw = PyNone \<or> py_num raw \<noteq> None) \<longrightarrow> (\<exists>v. sanitize_dividend_yield raw = Inr v)"
    using sanitize_total by blast
  have b: "sanitize_dividend_yield raw = Inr v \<and> raw \<noteq> PyFloat NaN \<longrightarrow>
      v = PyNone \<or> (\<exists>x. py_num v = Some x \<and> f_le (Fin 0) x \<and> f_le x (Fin 1))"
    using sanitize_unit_range[of raw v] by (intro impI) (elim conjE)
  have c: "sanitize_dividend_yield raw = Inr v \<and> py_gt raw (PyInt 1) = Inr True \<longrightarrow>
      v = PyNone \<or> (\<exists>x. v = PyFloat x \<and> f_le (Fin 0) x \<and> f_le x (Fin (1 / 4)))"
    using sanitize_percent_range[of raw v] by (intro impI) (elim conjE)
  show ?thesis
    by (intro conjI a b c)
qed

theorem sanitize_dividend_yield_range_witness:
  "py_num (PyInt 4) \<noteq> None \<and>
   sanitize_dividend_yield (PyInt 4) =
     Inr (PyFloat (Fin (5764607523034235 / 144115188075855872))) \<and>
   PyInt 4 \<noteq> PyFloat NaN \<and> py_gt (PyInt 4) (PyInt 1) = Inr True \<and>
   (\<exists>v. sanitize_dividend_yield (PyInt 4) = Inr v) \<and>
   (\<exists>x. py_num (PyFloat (Fin (5764607523034235 / 144115188075855872))) = Some x \<and>
      f_le (Fin 0) x \<and> f_le x (Fin 1)) \<and>
   (\<exists>x. PyFloat (Fin (5764607523034235 / 144115188075855872)) = PyFloat x \<and>
      f_le (Fin 0) x \<and> f_le x (Fin (1 / 4)))"
proof -
  let ?v = "PyFloat (Fin (5764607523034235 / 144115188075855872))"
  have h0: "PyInt 4 = PyNone \<or> py_num (PyInt 4) \<noteq> None"
    by (simp add: py_num_def)
  have h1: "sanitize_dividend_yield (PyInt 4) = Inr ?v \<and> PyInt 4 \<noteq> PyFloat NaN"
    using sanitize_int_4 by simp
  have h2: "sanitize_dividend_yield (PyInt 4) = Inr ?v \<and> py_gt (PyInt 4) (PyInt 1) = Inr True"
    using sanitize_int_4 by (simp add: cmp_defs)
  note t = sanitize_dividend_yield_range[of "PyInt 4" ?v]
  have t1: "\<exists>v. sanitize_dividend_yield (PyInt 4) = Inr v"
    using t[THEN conjunct1, rule_format, OF h0] .
  have t2: "\<exists>x. py_num ?v = Some x \<and> f_le (Fin 0) x \<and> f_le x (Fin 1)"
    using t[THEN conjunct2, THEN conjunct1, rule_format, OF h1] by simp
  have t3: "\<exists>x. ?v = PyFloat x \<and> f_le (Fin 0) x \<and> f_le x (Fin (1 / 4))"
    using t[THEN conjunct2, THEN conjunct2, rule_format, OF h2] by simp
  have h3: "py_num (PyInt 4) \<noteq> None"
    by (simp add: py_num_def)
  show ?thesis
    by (intro conjI h3 h1[THEN conjunct1] h1[THEN conjunct2] h2[THEN conjunct2] t1 t2 t3)
qed
section \<open>Digits and separators\<close>

lemma digit_char_is_digit: "n < 10 \<Longrightarrow> is_digit (digit_char n)"
proof -
  assume "n < 10"
  then have "n \<in> {0, 1, 2, 3, 4, 5, 6, 7, 8, 9}"
    by auto
  then show ?thesis
    by (auto simp: digit_char_def is_digit_def)
qed

lemma nat_digits_all_digits: "list_all is_digit (nat_digits n)"
proof (induction n rule: nat_digits.induct)
  case (1 n)
  show ?case
  proof (cases "n < 10")
    case True
    then show ?thesis
      by (subst nat_digits.simps) (simp add: digit_char_is_digit)
  next
    case False
    with 1 show ?thesis
      by (subst nat_digits.simps) (simp add: digit_char_is_digit)
  qed
qed

lemma nat_digits_length: "n < 10 ^ d \<Longrightarrow> 0 < d \<Longrightarrow> length (nat_digits n) \<le> d"
proof (induction n arbitrary: d rule: nat_digits.induct)
  case (1 n)
  show ?case
  proof (cases "n < 10")
    case True
    with 1(3) show ?thesis
      by (subst nat_digits.simps) simp
  next
    case False
    obtain d' where d: "d = Suc d'"
      using 1(3) by (cases d) auto
    from False 1(2) d have "0 < d'"
      by (cases d') auto
    moreover from 1(2) d have "n div 10 < 10 ^ d'"
      by (simp add: less_mult_imp_div_less mult.commute)
    ultimately have "length (nat_digits (n div 10)) \<le> d'"
      using 1(1)[OF False] by blast
    with False d show ?thesis
      by (subst nat_digits.simps) simp
  qed
qed

lemma is_digit_not_comma: "is_digit c \<Longrightarrow> c \<noteq> CHR '',''"
  by (auto simp: is_digit_def)

lemma group3_filter:
  "list_all is_digit s \<Longrightarrow> filter (\<lambda>c. c \<noteq> CHR '','') (group3 s) = s"
proof (induction s rule: group3.induct)
  case (1 s)
  have keep: "filter (\<lambda>c. c \<noteq> CHR '','') t = t" if "list_all is_digit t" for t
    using that by (induction t) (auto simp: is_digit_not_comma)
  show ?case
  proof (cases "length s \<le> 3")
    case True
    with 1(2) show ?thesis
      by (subst group3.simps) (simp add: keep)
  next
    case False
    have parts: "list_all is_digit (take (length s - 3) s)" "list_all is_digit (drop (length s - 3) s)"
      using 1(2) by (auto simp: list_all_iff dest: in_set_takeD in_set_dropD)
    have "filter (\<lambda>c. c \<noteq> CHR '','') (group3 s) =
        filter (\<lambda>c. c \<noteq> CHR '','') (group3 (take (length s - 3) s)) @
        filter (\<lambda>c. c \<noteq> CHR '','') (drop (length s - 3) s)"
      using False by (subst group3.simps) simp
    also have "\<dots> = take (length s - 3) s @ drop (length s - 3) s"
      using 1(1)[OF False parts(1)] keep[OF parts(2)] by simp
    finally show ?thesis
      by simp
  qed
qed

lemma fmt_int_commas_digits:
  "filter (\<lambda>c. c \<noteq> CHR '','') (fmt_int_commas n) =
     (if n < 0 then ''-'' else []) @ nat_digits (nat \<bar>n\<bar>)"
  by (simp add: fmt_int_commas_def group3_filter nat_digits_all_digits)

lemma fixed_digits_shape:
  assumes "0 < d"
  shows "\<exists>ip fp. fixed_digits a d False = ip @ ''.'' @ fp \<and> length fp = d \<and>
    list_all is_digit ip \<and> list_all is_digit fp"
proof -
  define m where "m = nat (round_half_even (a * 10 ^ d))"
  define fp where "fp = replicate (d - length (nat_digits (m mod 10 ^ d))) (CHR ''0'') @
    nat_digits (m mod 10 ^ d)"
  have "length (nat_digits (m mod 10 ^ d)) \<le> d"
    using assms by (intro nat_digits_length) simp_all
  then have "length fp = d"
    by (simp add: fp_def)
  moreover have "list_all is_digit fp"
    by (simp add: fp_def nat_digits_all_digits list_all_iff is_digit_def)
      (use nat_digits_all_digits[of "m mod 10 ^ d"] in \<open>auto simp: list_all_iff is_digit_def\<close>)
  moreover have "fixed_digits a d False = nat_digits (m div 10 ^ d) @ ''.'' @ fp"
    using assms by (simp add: fixed_digits_def Let_def m_def fp_def)
  ultimately show ?thesis
    using nat_digits_all_digits[of "m div 10 ^ d"] by blast
qed
section \<open>The numeric formatters\<close>

lemma floor_rat_neg_numeral_div [simp]:
  "\<lfloor>- ((numeral a :: rat) / numeral b)\<rfloor> = - numeral a div numeral b"
  using floor_divide_of_int_eq[of "- numeral a" "numeral b", where ?'a = rat] by simp

lemma floor_rat_one_div [simp]:
  "\<lfloor>(1 :: rat) / numeral b\<rfloor> = 1 div numeral b"
  using floor_divide_of_int_eq[of 1 "numeral b", where ?'a = rat] by simp

lemma floor_rat_neg_one_div [simp]:
  "\<lfloor>- ((1 :: rat) / numeral b)\<rfloor> = - 1 div numeral b"
  using floor_divide_of_int_eq[of "- 1" "numeral b", where ?'a = rat] by simp

lemmas fmt_eval = py_format_f_def ebind_def fmt_fixed_def fixed_digits_def round_half_even_def
  Let_def nat_digits.simps digit_char_def group3.simps fmt_int_commas_def

lemmas str_eval = float_of_str_def float_strip_def is_float_space_def is_digit_def split_sign_def
  py_lower_def lower_char_def parse_decimal_def parse_exponent_def nat_of_digits_def
  digit_val_def Let_def

lemma py_float_not_a_number: "py_float (PyStr ''abc'') = Inl ValueError"
  by (simp add: py_float_def str_eval)

text \<open>
  A separator 28 to 31 next to a number is white space for \<^verbatim>\<open>str.strip()\<close> and not for
  \<^verbatim>\<open>float()\<close>: the conversion fails and the formatters fall back to \<^verbatim>\<open>"N/A"\<close>. The ASCII
  white space and the no-break space are dropped.
\<close>

lemma py_float_separators:
  "py_float (PyStr (CHR 0x1C # ''0.5'')) = Inl ValueError"
  "py_float (PyStr (''12.5'' @ [CHR 0x1F])) = Inl ValueError"
  "py_strip (CHR 0x1C # ''0.5'') = ''0.5''"
  by (simp_all add: py_float_def str_eval py_strip_def is_space_def)

lemma py_float_white_space:
  "py_float (PyStr (CHR 0x09 # CHR 0xA0 # ''3'' @ [CHR 0x20, CHR 0x0A])) = Inr (Fin 3)"
proof -
  have "to_double 3 = Fin 3"
    by (rule to_double_pos[where e = 1 and e' = 1 and n = 6755399441055744])
       (simp_all add: round_eval)
  then show ?thesis
    by (simp add: py_float_def str_eval nat_of_digits_def digit_val_def)
qed

lemma to_double_half: "to_double (1 / 2) = Fin (1 / 2)"
  by (rule to_double_pos[where e = "- 1" and e' = "- 1" and n = 4503599627370496])
     (simp_all add: round_eval)

lemma to_double_12_5: "to_double (25 / 2) = Fin (25 / 2)"
  by (rule to_double_pos[where e = 3 and e' = 3 and n = 7036874417766400])
     (simp_all add: round_eval)

lemma py_float_strings:
  "py_float (PyStr ''0.5'') = Inr (Fin (1 / 2))"
  "py_float (PyStr '' 12.5 '') = Inr (Fin (25 / 2))"
  by (simp_all add: py_float_def str_eval nat_of_digits_def digit_val_def to_double_half
      to_double_12_5)

text \<open>
  The three formatters that convert with \<^verbatim>\<open>float()\<close> inside a \<^verbatim>\<open>try\<close> give \<^verbatim>\<open>"N/A"\<close> for
  an absent input and for one that \<^verbatim>\<open>float()\<close> refuses.
\<close>

lemma format_percent_not_numeric:
  "raw = PyNone \<or> py_float raw = Inl TypeError \<or> py_float raw = Inl ValueError \<Longrightarrow>
     format_percent raw decimals assume_fractional = Inr ''N/A''"
  by (auto simp: format_percent_def)

lemma format_currency_not_numeric:
  "raw = PyNone \<or> py_float raw = Inl TypeError \<or> py_float raw = Inl ValueError \<Longrightarrow>
     format_currency raw = Inr ''N/A''"
  by (auto simp: format_currency_def)

lemma format_integer_not_numeric:
  "raw = PyNone \<or> py_float raw = Inl TypeError \<or> py_float raw = Inl ValueError \<Longrightarrow>
     format_integer raw = Inr ''N/A''"
  by (auto simp: format_integer_def ebind_def)

lemma format_ratio_none: "format_ratio PyNone decimals = Inr ''N/A''"
  by (simp add: format_ratio_def)

text \<open>
  C1. \<^verbatim>\<open>format_ratio\<close> has no \<^verbatim>\<open>try\<close>: it hands every input other than \<^verbatim>\<open>None\<close> to the
  format specification. A string that is not a number (\<^verbatim>\<open>float("abc")\<close> is a ValueError)
  and an object (\<^verbatim>\<open>float()\<close> of it is a TypeError) make it raise, where the claim says
  \<^verbatim>\<open>"N/A"\<close>.
\<close>

theorem format_ratio_raises:
  "py_float (PyStr ''abc'') = Inl ValueError \<and>
   format_ratio (PyStr ''abc'') 2 = Inl ValueError \<and>
   py_float (PyObj []) = Inl TypeError \<and>
   format_ratio (PyObj []) 2 = Inl TypeError"
  by (simp add: py_float_not_a_number format_ratio_def py_format_f_def) (simp add: py_float_def)

lemma format_integer_1234_5: "format_integer (PyFloat (Fin (2469 / 2))) = Inr ''1,234''"
  by (simp add: format_integer_def py_float_def py_round_def fmt_eval)

text \<open>
  C3, as the specification states it, fails: \<^verbatim>\<open>round\<close> takes a tie to the even neighbour,
  so 1234.5 gives \<^verbatim>\<open>"1,234"\<close>.
\<close>

theorem format_integer_tie_counterexample:
  "format_integer (PyFloat (Fin (2469 / 2))) = Inr ''1,234'' \<and>
   format_integer (PyFloat (Fin (2469 / 2))) \<noteq> Inr ''1,235''"
  by (simp add: format_integer_1234_5)

lemma format_integer_finite:
  assumes "py_float raw = Inr (Fin r)"
  shows "format_integer raw = Inr (fmt_int_commas (round_half_even r))"
proof -
  from assms have "raw \<noteq> PyNone"
    by (auto simp: py_float_def)
  with assms show ?thesis
    by (simp add: format_integer_def ebind_def py_round_def)
qed

lemma to_double_1234567: "to_double 1234567 = Fin 1234567"
  by (rule to_double_pos[where e = 20 and e' = 20 and n = 5302424889720832])
     (simp_all add: round_eval)

lemma format_integer_examples:
  "format_integer (PyFloat (Fin (2471 / 2))) = Inr ''1,236''"
  "format_integer (PyFloat (Fin (- 2469 / 2))) = Inr ''-1,234''"
  "format_integer (PyFloat (Fin (12346 / 10))) = Inr ''1,235''"
  "format_integer (PyInt 1234567) = Inr ''1,234,567''"
  "format_integer (PyFloat (Fin (1 / 2))) = Inr ''0''"
  by (simp_all add: format_integer_def py_float_def py_round_def fmt_eval to_double_1234567)

lemma format_integer_strings:
  "format_integer (PyStr '' 12.5 '') = Inr ''12''"
  "format_integer (PyStr (''12.5'' @ [CHR 0x1F])) = Inr ''N/A''"
  using py_float_separators(2)
  by (simp_all add: format_integer_def py_float_strings py_round_def fmt_eval)

text \<open>
  C3, amended. For every input whose conversion by \<^verbatim>\<open>float()\<close> is finite,
  \<^verbatim>\<open>format_integer\<close> renders the integer nearest to the value, a tie going to the even
  neighbour: the integer is within one half of the value and is even when it is exactly
  one half away. The rendering is the decimal digits of the integer, a minus sign before
  them when it is negative, and nothing else but the commas of the grouping. So 1234.5
  gives \<^verbatim>\<open>"1,234"\<close>, 1235.5 gives \<^verbatim>\<open>"1,236"\<close>, -1234.5 gives \<^verbatim>\<open>"-1,234"\<close>, 1234.6 gives
  \<^verbatim>\<open>"1,235"\<close>, 1234567 gives \<^verbatim>\<open>"1,234,567"\<close> and 0.5 gives \<^verbatim>\<open>"0"\<close>. The string \<^verbatim>\<open>" 12.5 "\<close>
  converts and gives \<^verbatim>\<open>"12"\<close>; the string \<^verbatim>\<open>"12.5\x1f"\<close> does not convert and gives \<^verbatim>\<open>"N/A"\<close>.
\<close>

theorem format_integer_rounds_half_even:
  "(py_float raw = Inr (Fin r) \<longrightarrow>
      format_integer raw = Inr (fmt_int_commas (round_half_even r)) \<and>
      \<bar>r - of_int (round_half_even r)\<bar> \<le> 1 / 2 \<and>
      (\<bar>r - of_int (round_half_even r)\<bar> = 1 / 2 \<longrightarrow> even (round_half_even r))) \<and>
   filter (\<lambda>c. c \<noteq> CHR '','') (fmt_int_commas n) =
     (if n < 0 then ''-'' else []) @ nat_digits (nat \<bar>n\<bar>) \<and>
   list_all is_digit (nat_digits k) \<and>
   format_integer (PyFloat (Fin (2469 / 2))) = Inr ''1,234'' \<and>
   format_integer (PyFloat (Fin (2471 / 2))) = Inr ''1,236'' \<and>
   format_integer (PyFloat (Fin (- 2469 / 2))) = Inr ''-1,234'' \<and>
   format_integer (PyFloat (Fin (12346 / 10))) = Inr ''1,235'' \<and>
   format_integer (PyInt 1234567) = Inr ''1,234,567'' \<and>
   format_integer (PyFloat (Fin (1 / 2))) = Inr ''0'' \<and>
   format_integer (PyStr '' 12.5 '') = Inr ''12'' \<and>
   format_integer (PyStr (''12.5'' @ [CHR 0x1F])) = Inr ''N/A''"
proof -
  have a: "py_float raw = Inr (Fin r) \<longrightarrow>
      format_integer raw = Inr (fmt_int_commas (round_half_even r)) \<and>
      \<bar>r - of_int (round_half_even r)\<bar> \<le> 1 / 2 \<and>
      (\<bar>r - of_int (round_half_even r)\<bar> = 1 / 2 \<longrightarrow> even (round_half_even r))"
    using format_integer_finite[of raw r] round_half_even_near[of r] round_half_even_tie[of r]
    by (intro impI conjI)
  show ?thesis
    by (intro conjI a fmt_int_commas_digits nat_digits_all_digits format_integer_1234_5
        format_integer_examples format_integer_strings)
qed

theorem format_integer_rounds_half_even_witness:
  "py_float (PyFloat (Fin (5 / 2))) = Inr (Fin (5 / 2)) \<and>
   \<bar>5 / 2 - of_int (round_half_even (5 / 2))\<bar> = (1 / 2 :: rat) \<and>
   format_integer (PyFloat (Fin (5 / 2))) = Inr (fmt_int_commas (round_half_even (5 / 2))) \<and>
   even (round_half_even (5 / 2))"
proof -
  have h: "py_float (PyFloat (Fin (5 / 2))) = Inr (Fin (5 / 2))"
    by (simp add: py_float_def)
  have tie: "\<bar>5 / 2 - of_int (round_half_even (5 / 2))\<bar> = (1 / 2 :: rat)"
    by (simp add: round_half_even_def Let_def)
  note t = format_integer_rounds_half_even[of "PyFloat (Fin (5 / 2))" "5 / 2", THEN conjunct1,
      rule_format, OF h]
  show ?thesis
    by (intro conjI h tie t[THEN conjunct1]
        t[THEN conjunct2, THEN conjunct2, rule_format, OF tie])
qed
lemma format_percent_numeric:
  assumes "py_float raw = Inr v" "0 \<le> decimals" "decimals \<le> 2147483647"
  shows "format_percent raw decimals assume_fractional =
    Inr (fmt_fixed (if assume_fractional \<or> f_le (f_abs v) (Fin 1) then f_mul_pos v 100 else v)
      (nat decimals) False @ ''%'')"
proof -
  from assms(1) have "raw \<noteq> PyNone"
    by (auto simp: py_float_def)
  with assms show ?thesis
    by (simp add: format_percent_def py_format_f_def ebind_def py_float_def Let_def)
qed

lemma fmt_fixed_shape:
  assumes "0 < d"
  shows "\<exists>ip fp. fmt_fixed (Fin r) d False = (if r < 0 then ''-'' else []) @ ip @ ''.'' @ fp \<and>
    length fp = d \<and> list_all is_digit ip \<and> list_all is_digit fp"
  using fixed_digits_shape[OF assms, of "\<bar>r\<bar>"] by (auto simp: fmt_fixed_def)

lemma format_percent_examples:
  "format_percent (PyFloat (Fin (1 / 2))) 2 False = Inr ''50.00%''"
  "format_percent (PyInt 50) 2 False = Inr ''50.00%''"
  "format_percent (PyFloat (Fin 50)) 2 False = Inr ''50.00%''"
  "format_percent (PyFloat (Fin (1 / 2))) 2 True = Inr ''50.00%''"
  "format_percent (PyFloat (Fin 50)) 0 False = Inr ''50%''"
  by (simp_all add: format_percent_def py_float_def f_le_def f_abs_def f_key_def f_mul_pos_def
      to_double_50 fmt_eval)

lemma py_float_of_float: "py_float (PyFloat f) = Inr f"
  by (simp add: py_float_def)

lemma format_percent_strings:
  "format_percent (PyStr ''0.5'') 2 False = Inr ''50.00%''"
  "format_percent (PyStr (CHR 0x1C # ''0.5'')) 2 False = Inr ''N/A''"
proof -
  show "format_percent (PyStr ''0.5'') 2 False = Inr ''50.00%''"
    by (simp add: format_percent_def py_float_strings py_float_of_float f_le_def f_abs_def
        f_key_def f_mul_pos_def to_double_50 fmt_eval)
  show "format_percent (PyStr (CHR 0x1C # ''0.5'')) 2 False = Inr ''N/A''"
    using py_float_separators(1) by (simp add: format_percent_def)
qed

text \<open>
  C8. For every input that \<^verbatim>\<open>float()\<close> converts and every precision that the format
  specification accepts (0 to \<open>2 ^ 31 - 1\<close>), \<^verbatim>\<open>format_percent\<close> multiplies the value by
  100 when \<^verbatim>\<open>assume_fractional\<close> is set or the absolute value is at most 1, leaves it as it
  is otherwise, and returns it in fixed notation followed by \<^verbatim>\<open>%\<close>. The fixed notation of
  a finite value with a positive precision is a sign, digits, a point and exactly as many
  digits as the precision asks for. Both \<^verbatim>\<open>format_percent(0.5)\<close> and
  \<^verbatim>\<open>format_percent(50)\<close> are \<^verbatim>\<open>"50.00%"\<close>, and so is the string \<^verbatim>\<open>"0.5"\<close>; the string
  \<^verbatim>\<open>"\x1c0.5"\<close> does not convert and gives \<^verbatim>\<open>"N/A"\<close>.
\<close>

theorem format_percent_scaling:
  "(py_float raw = Inr v \<and> 0 \<le> decimals \<and> decimals \<le> 2147483647 \<longrightarrow>
      format_percent raw decimals assume_fractional =
        Inr (fmt_fixed (if assume_fractional \<or> f_le (f_abs v) (Fin 1) then f_mul_pos v 100 else v)
          (nat decimals) False @ ''%'')) \<and>
   (0 < d \<longrightarrow>
      (\<exists>ip fp. fmt_fixed (Fin r) d False = (if r < 0 then ''-'' else []) @ ip @ ''.'' @ fp \<and>
         length fp = d \<and> list_all is_digit ip \<and> list_all is_digit fp)) \<and>
   format_percent (PyFloat (Fin (1 / 2))) 2 False = Inr ''50.00%'' \<and>
   format_percent (PyInt 50) 2 False = Inr ''50.00%'' \<and>
   format_percent (PyFloat (Fin 50)) 2 False = Inr ''50.00%'' \<and>
   format_percent (PyFloat (Fin (1 / 2))) 2 True = Inr ''50.00%'' \<and>
   format_percent (PyFloat (Fin 50)) 0 False = Inr ''50%'' \<and>
   format_percent (PyStr ''0.5'') 2 False = Inr ''50.00%'' \<and>
   format_percent (PyStr (CHR 0x1C # ''0.5'')) 2 False = Inr ''N/A''"
proof -
  have a: "py_float raw = Inr v \<and> 0 \<le> decimals \<and> decimals \<le> 2147483647 \<longrightarrow>
      format_percent raw decimals assume_fractional =
        Inr (fmt_fixed (if assume_fractional \<or> f_le (f_abs v) (Fin 1) then f_mul_pos v 100 else v)
          (nat decimals) False @ ''%'')"
    using format_percent_numeric[of raw v decimals assume_fractional]
    by (intro impI) (elim conjE)
  have b: "0 < d \<longrightarrow>
      (\<exists>ip fp. fmt_fixed (Fin r) d False = (if r < 0 then ''-'' else []) @ ip @ ''.'' @ fp \<and>
         length fp = d \<and> list_all is_digit ip \<and> list_all is_digit fp)"
    using fmt_fixed_shape[of d r] by (intro impI)
  show ?thesis
    by (intro conjI a b format_percent_examples format_percent_strings)
qed

theorem format_percent_scaling_witness:
  "py_float (PyFloat (Fin (1 / 2))) = Inr (Fin (1 / 2)) \<and>
   f_le (f_abs (Fin (1 / 2))) (Fin 1) \<and> f_mul_pos (Fin (1 / 2)) 100 = Fin 50 \<and>
   format_percent (PyFloat (Fin (1 / 2))) 2 False = Inr (fmt_fixed (Fin 50) 2 False @ ''%'') \<and>
   (\<exists>ip fp. fmt_fixed (Fin 50) 2 False = ip @ ''.'' @ fp \<and>
      length fp = 2 \<and> list_all is_digit ip \<and> list_all is_digit fp)"
proof -
  have h: "py_float (PyFloat (Fin (1 / 2))) = Inr (Fin (1 / 2)) \<and> (0 :: int) \<le> 2 \<and>
      (2 :: int) \<le> 2147483647"
    by (simp add: py_float_def)
  have le: "f_le (f_abs (Fin (1 / 2))) (Fin 1)"
    by (simp add: f_le_def f_abs_def f_key_def)
  have mul: "f_mul_pos (Fin (1 / 2)) 100 = Fin 50"
    by (simp add: f_mul_pos_def to_double_50)
  note t = format_percent_scaling[of "PyFloat (Fin (1 / 2))" "Fin (1 / 2)" 2 False 2 50]
  have t1: "format_percent (PyFloat (Fin (1 / 2))) 2 False =
      Inr (fmt_fixed (Fin 50) 2 False @ ''%'')"
    using t[THEN conjunct1, rule_format, OF h] le mul by simp
  have t2: "\<exists>ip fp. fmt_fixed (Fin 50) 2 False = ip @ ''.'' @ fp \<and>
      length fp = 2 \<and> list_all is_digit ip \<and> list_all is_digit fp"
    using t[THEN conjunct2, THEN conjunct1, rule_format] by simp
  show ?thesis
    by (intro conjI h[THEN conjunct1] le mul t1 t2)
qed
section \<open>The price analysis validator\<close>












lemma ebind_Inr: "ebind m f = Inr y \<Longrightarrow> \<exists>x. m = Inr x \<and> f x = Inr y"
  by (cases m) (simp_all add: ebind_def)









section \<open>The filters\<close>

lemma recent_loop_result:
  "recent_loop p field as_of m xs acc = Inr r \<Longrightarrow>
   r = acc @ filter (\<lambda>x. case p (getattr_default x field (PyStr [])) of
       Inr (Some dt) \<Rightarrow> older_than as_of dt m = Inr False
     | _ \<Rightarrow> False) xs"
proof (induction xs arbitrary: acc)
  case Nil
  then show ?case by simp
next
  case (Cons x xs)
  show ?case
  proof (cases "p (getattr_default x field (PyStr []))")
    case (Inl e)
    with Cons.prems show ?thesis by simp
  next
    case (Inr d)
    show ?thesis
    proof (cases d)
      case None
      with Inr Cons show ?thesis by simp
    next
      case (Some dt)
      show ?thesis
      proof (cases "older_than as_of dt m")
        case (Inl e)
        with Inr Some Cons.prems show ?thesis by simp
      next
        case old: (Inr b)
        with Inr Some Cons.prems Cons.IH[of acc] Cons.IH[of "acc @ [x]"]
        show ?thesis by (cases b) simp_all
      qed
    qed
  qed
qed

lemma recent_loop_kept:
  "\<forall>x \<in> set ks. (case p (getattr_default x field (PyStr [])) of
       Inr (Some dt) \<Rightarrow> older_than as_of dt m = Inr False
     | _ \<Rightarrow> False) \<Longrightarrow>
   recent_loop p field as_of m ks acc = Inr (acc @ ks)"
  by (induction ks arbitrary: acc) (auto split: sum.splits option.splits)

lemma recent_loop_idempotent:
  assumes "recent_loop p field as_of m xs [] = Inr ys"
  shows "recent_loop p field as_of m ys [] = Inr ys"
proof -
  from recent_loop_result[OF assms]
  have "\<forall>x \<in> set ys. (case p (getattr_default x field (PyStr [])) of
       Inr (Some dt) \<Rightarrow> older_than as_of dt m = Inr False
     | _ \<Rightarrow> False)"
    by simp
  from recent_loop_kept[OF this, of "[]"] show ?thesis
    by simp
qed

lemma recent_loop_filter:
  assumes "\<forall>x \<in> set xs. \<exists>d. p (getattr_default x field (PyStr [])) = Inr d"
    and "- 999999999 \<le> m" "m \<le> 999999999"
  shows "recent_loop p field as_of m xs acc =
    Inr (acc @ filter (\<lambda>x. case p (getattr_default x field (PyStr [])) of
        Inr (Some dt) \<Rightarrow> toordinal as_of - toordinal dt \<le> m
      | _ \<Rightarrow> False) xs)"
  using assms(1)
proof (induction xs arbitrary: acc)
  case Nil
  then show ?case by simp
next
  case (Cons x xs)
  then obtain d where d: "p (getattr_default x field (PyStr [])) = Inr d"
    by auto
  from Cons have IH: "recent_loop p field as_of m xs acc' =
    Inr (acc' @ filter (\<lambda>x. case p (getattr_default x field (PyStr [])) of
        Inr (Some dt) \<Rightarrow> toordinal as_of - toordinal dt \<le> m
      | _ \<Rightarrow> False) xs)" for acc'
    by simp
  show ?case
    using d assms(2,3) by (cases d) (simp_all add: IH older_than_def)
qed

lemma valid_loop_result:
  "valid_loop xs acc = Inr r \<Longrightarrow>
   r = acc @ filter (\<lambda>x. case strip_method (getattr_default x ''name'' (PyStr [])) of
       Inr s \<Rightarrow> py_lower s \<noteq> [] \<and> py_lower s \<notin> set PLACEHOLDER_NAMES
     | Inl e \<Rightarrow> False) xs"
proof (induction xs arbitrary: acc)
  case Nil
  then show ?case by simp
next
  case (Cons x xs)
  show ?case
  proof (cases "strip_method (getattr_default x ''name'' (PyStr []))")
    case (Inl e)
    with Cons.prems show ?thesis by simp
  next
    case (Inr s)
    with Cons.prems Cons.IH[of acc] Cons.IH[of "acc @ [x]"] show ?thesis
      by (simp add: Let_def split: if_splits)
  qed
qed

lemma valid_loop_kept:
  "\<forall>x \<in> set ks. (case strip_method (getattr_default x ''name'' (PyStr [])) of
       Inr s \<Rightarrow> py_lower s \<noteq> [] \<and> py_lower s \<notin> set PLACEHOLDER_NAMES
     | Inl e \<Rightarrow> False) \<Longrightarrow>
   valid_loop ks acc = Inr (acc @ ks)"
  by (induction ks arbitrary: acc) (auto simp: Let_def split: sum.splits)

lemma filter_recent_articles_idempotent:
  "filter_recent_articles fromiso xs as_of m = Inr ys \<Longrightarrow>
   filter_recent_articles fromiso (Some ys) as_of m = Inr ys"
  unfolding filter_recent_articles_def
  by (simp add: or_empty_def recent_loop_idempotent)

lemma filter_valid_transactions_idempotent:
  assumes "filter_valid_transactions xs = Inr ys"
  shows "filter_valid_transactions (Some ys) = Inr ys"
proof -
  from assms valid_loop_result[of "or_empty xs" "[]" ys]
  have "\<forall>x \<in> set ys. (case strip_method (getattr_default x ''name'' (PyStr [])) of
       Inr s \<Rightarrow> py_lower s \<noteq> [] \<and> py_lower s \<notin> set PLACEHOLDER_NAMES
     | Inl e \<Rightarrow> False)"
    by (simp add: filter_valid_transactions_def)
  from valid_loop_kept[OF this, of "[]"] show ?thesis
    by (simp add: filter_valid_transactions_def or_empty_def)
qed

lemma filter_recent_transactions_idempotent:
  assumes "filter_recent_transactions fromiso xs as_of m = Inr ys"
  shows "filter_recent_transactions fromiso (Some ys) as_of m = Inr ys"
proof -
  from assms obtain valid where
    v: "filter_valid_transactions xs = Inr valid" and
    l: "recent_loop (parse fromiso) ''transaction_date'' as_of m valid [] = Inr ys"
    by (auto simp: filter_recent_transactions_def dest!: ebind_Inr)
  from recent_loop_result[OF l] have sub: "set ys \<subseteq> set valid"
    by auto
  from v valid_loop_result[of "or_empty xs" "[]" valid]
  have "\<forall>x \<in> set valid. (case strip_method (getattr_default x ''name'' (PyStr [])) of
       Inr s \<Rightarrow> py_lower s \<noteq> [] \<and> py_lower s \<notin> set PLACEHOLDER_NAMES
     | Inl e \<Rightarrow> False)"
    by (simp add: filter_valid_transactions_def)
  with sub have "\<forall>x \<in> set ys. (case strip_method (getattr_default x ''name'' (PyStr [])) of
       Inr s \<Rightarrow> py_lower s \<noteq> [] \<and> py_lower s \<notin> set PLACEHOLDER_NAMES
     | Inl e \<Rightarrow> False)"
    by blast
  from valid_loop_kept[OF this, of "[]"] have "filter_valid_transactions (Some ys) = Inr ys"
    by (simp add: filter_valid_transactions_def or_empty_def)
  with recent_loop_idempotent[OF l] show ?thesis
    by (simp add: filter_recent_transactions_def ebind_def)
qed

text \<open>
  C9. Each filter is idempotent: when \<^verbatim>\<open>filter_recent_articles\<close>,
  \<^verbatim>\<open>filter_valid_transactions\<close> or \<^verbatim>\<open>filter_recent_transactions\<close> returns a list, the
  same filter, with the same date and window, returns that list unchanged when applied to
  it.
\<close>

theorem filters_idempotent:
  "(filter_recent_articles fromiso xs as_of m = Inr ys \<longrightarrow>
      filter_recent_articles fromiso (Some ys) as_of m = Inr ys) \<and>
   (filter_valid_transactions xs = Inr ys \<longrightarrow> filter_valid_transactions (Some ys) = Inr ys) \<and>
   (filter_recent_transactions fromiso xs as_of m = Inr ys \<longrightarrow>
      filter_recent_transactions fromiso (Some ys) as_of m = Inr ys)"
  using filter_recent_articles_idempotent[of fromiso xs as_of m ys]
    filter_valid_transactions_idempotent[of xs ys]
    filter_recent_transactions_idempotent[of fromiso xs as_of m ys]
  by (intro conjI impI)

text \<open>
  C10. With \<^verbatim>\<open>None\<close> for the collection, each of the three filters returns the empty
  list.
\<close>

theorem filters_of_none:
  "filter_recent_articles fromiso None as_of m = Inr [] \<and>
   filter_valid_transactions None = Inr [] \<and>
   filter_recent_transactions fromiso None as_of m = Inr []"
  by (simp add: filter_recent_articles_def filter_valid_transactions_def
      filter_recent_transactions_def or_empty_def ebind_def)
lemma eq_char_of_iff: "c = char_of (n :: nat) \<longleftrightarrow> of_char c = take_bit 8 n"
  using char_of_eq_iff[of n c] by auto

lemmas char_eval = lower_char_def char_of_eq_iff eq_char_of_iff

lemmas date_eval = parse_date_def parse_def parse_with_def truthy_def strip_method_def py_strip_def
  is_space_def ebind_def strptime_date_def fmt_date_def fmt_time_def fmt_iso_z_def fmt_iso_def
  fmt_space_def dir_Y_def dir_m_def dir_d_def dir_H_def dir_M_def dir_S_def digit_def just_def
  in_class_def field_val_def nat_of_digits_def digit_val_def is_digit_def valid_date_def
  days_in_month_def is_leap_def char_eval Let_def

lemmas ordinal_eval = older_than_def toordinal_def days_before_year_def days_before_month_def
  is_leap_def

lemma parse_date_examples:
  "parse_date fromiso (PyStr ''2024-05-01'') = Inr (Some (Date 2024 5 1))"
  "parse_date fromiso (PyStr ''2023-01-01'') = Inr (Some (Date 2023 1 1))"
  "parse_date fromiso (PyStr ''2024-02-02'') = Inr (Some (Date 2024 2 2))"
  "parse_date fromiso (PyStr ''2024-02-01'') = Inr (Some (Date 2024 2 1))"
  "parse_date fromiso (PyStr '' 2024-05-01T23:59:59Z '') = Inr (Some (Date 2024 5 1))"
  "parse_date fromiso (PyStr ''2024-05-01 07:30:00'') = Inr (Some (Date 2024 5 1))"
  "parse_date fromiso (PyStr ''2024-05-01T07:30:00'') = Inr (Some (Date 2024 5 1))"
  "parse_date fromiso (PyStr []) = Inr None"
  "parse_date fromiso PyNone = Inr None"
  by (simp_all add: date_eval)

lemma parse_date_unparseable:
  "parse_date (\<lambda>s. None) (PyStr ''not a date'') = Inr None"
  "parse_date (\<lambda>s. None) (PyStr ''2024-02-30'') = Inr None"
  by (simp_all add: date_eval)

lemma older_than_examples:
  "older_than (Date 2024 6 1) (Date 2024 5 1) 120 = Inr False"
  "older_than (Date 2024 6 1) (Date 2023 1 1) 120 = Inr True"
  "older_than (Date 2024 6 1) (Date 2024 2 2) 120 = Inr False"
  "older_than (Date 2024 6 1) (Date 2024 2 1) 120 = Inr True"
  "toordinal (Date 2024 6 1) - toordinal (Date 2024 2 2) = 120"
  by (simp_all add: ordinal_eval)
lemma parse_date_typed:
  "parse_date fromiso PyNone = Inr None"
  "parse_date fromiso (PyStr s) =
     Inr (if s = [] then None
          else case first_format [fmt_date, fmt_iso_z, fmt_iso, fmt_space] (py_strip s) of
              Some dt \<Rightarrow> Some dt
            | None \<Rightarrow> fromiso (replace_Z (py_strip s)))"
  by (simp_all add: parse_date_def parse_with_def truthy_def strip_method_def ebind_def
      split: option.splits)

lemmas filter_eval = filter_recent_articles_def filter_valid_transactions_def
  filter_recent_transactions_def or_empty_def getattr_default_def attrs_def

lemma filter_recent_articles_example:
  "filter_recent_articles fromiso
     (Some [PyObj [(''title'', PyStr ''kept''), (''published_date'', PyStr ''2024-05-01'')],
            PyObj [(''published_date'', PyStr ''2023-01-01'')],
            PyObj [(''title'', PyStr ''undated'')],
            PyObj [(''published_date'', PyNone)],
            PyObj [(''published_date'', PyStr ''2024-02-02'')],
            PyObj [(''published_date'', PyStr ''2024-02-01'')]])
     (Date 2024 6 1) 120 =
   Inr [PyObj [(''title'', PyStr ''kept''), (''published_date'', PyStr ''2024-05-01'')],
        PyObj [(''published_date'', PyStr ''2024-02-02'')]]"
  by (simp add: filter_eval parse_date_examples older_than_examples)

text \<open>
  C7. For articles whose \<^verbatim>\<open>published_date\<close> is a string, \<^verbatim>\<open>None\<close> or missing, and a window
  that a \<^verbatim>\<open>timedelta\<close> can hold, \<^verbatim>\<open>filter_recent_articles\<close> returns exactly the articles,
  in the order of the input, whose date parses and lies at most \<^verbatim>\<open>max_age_days\<close> days
  before \<^verbatim>\<open>as_of\<close> (the boundary included). A date parses when the text, stripped of white
  space, is not empty and matches one of the four formats or, failing them, is accepted by
  \<^verbatim>\<open>fromisoformat\<close>; an absent date does not parse. With \<^verbatim>\<open>as_of\<close> 2024-06-01 and 120
  days, the articles of 2024-05-01 and of 2024-02-02 (120 days old) are kept, those of
  2023-01-01 and of 2024-02-01 (121 days old) and the undated ones are dropped.
\<close>

theorem filter_recent_articles_window:
  assumes typed: "\<forall>a \<in> set articles.
      getattr_default a ''published_date'' (PyStr []) = PyNone \<or>
      (\<exists>s. getattr_default a ''published_date'' (PyStr []) = PyStr s)"
    and range: "- 999999999 \<le> m" "m \<le> 999999999"
  shows
  "filter_recent_articles fromiso (Some articles) as_of m =
     Inr (filter (\<lambda>a. case parse_date fromiso (getattr_default a ''published_date'' (PyStr [])) of
         Inr (Some dt) \<Rightarrow> toordinal as_of - toordinal dt \<le> m
       | _ \<Rightarrow> False) articles) \<and>
   parse_date fromiso PyNone = Inr None \<and>
   parse_date fromiso (PyStr s) =
     Inr (if s = [] then None
          else case first_format [fmt_date, fmt_iso_z, fmt_iso, fmt_space] (py_strip s) of
              Some dt \<Rightarrow> Some dt
            | None \<Rightarrow> fromiso (replace_Z (py_strip s))) \<and>
   filter_recent_articles fromiso
     (Some [PyObj [(''title'', PyStr ''kept''), (''published_date'', PyStr ''2024-05-01'')],
            PyObj [(''published_date'', PyStr ''2023-01-01'')],
            PyObj [(''title'', PyStr ''undated'')],
            PyObj [(''published_date'', PyNone)],
            PyObj [(''published_date'', PyStr ''2024-02-02'')],
            PyObj [(''published_date'', PyStr ''2024-02-01'')]])
     (Date 2024 6 1) 120 =
   Inr [PyObj [(''title'', PyStr ''kept''), (''published_date'', PyStr ''2024-05-01'')],
        PyObj [(''published_date'', PyStr ''2024-02-02'')]]"
proof -
  have "\<forall>a \<in> set articles.
      \<exists>d. parse_date fromiso (getattr_default a ''published_date'' (PyStr [])) = Inr d"
    using typed parse_date_typed[of fromiso] by fastforce
  from recent_loop_filter[OF this range, of as_of "[]"]
  have "filter_recent_articles fromiso (Some articles) as_of m =
     Inr (filter (\<lambda>a. case parse_date fromiso (getattr_default a ''published_date'' (PyStr [])) of
         Inr (Some dt) \<Rightarrow> toordinal as_of - toordinal dt \<le> m
       | _ \<Rightarrow> False) articles)"
    by (simp add: filter_recent_articles_def or_empty_def)
  then show ?thesis
    by (intro conjI parse_date_typed filter_recent_articles_example)
qed

theorem filter_recent_articles_window_witness:
  "filter_recent_articles (\<lambda>s. None)
     (Some [PyObj [(''published_date'', PyStr ''2024-05-01T08:00:00Z'')],
            PyObj [(''published_date'', PyStr ''2023-01-01'')],
            PyObj [(''published_date'', PyStr ''not a date'')],
            PyObj []])
     (Date 2024 6 1) 120 =
   Inr [PyObj [(''published_date'', PyStr ''2024-05-01T08:00:00Z'')]]"
proof -
  let ?arts = "[PyObj [(''published_date'', PyStr ''2024-05-01T08:00:00Z'')],
            PyObj [(''published_date'', PyStr ''2023-01-01'')],
            PyObj [(''published_date'', PyStr ''not a date'')],
            PyObj []]"
  have typed: "\<forall>a \<in> set ?arts.
      getattr_default a ''published_date'' (PyStr []) = PyNone \<or>
      (\<exists>s. getattr_default a ''published_date'' (PyStr []) = PyStr s)"
    by (simp add: getattr_default_def attrs_def)
  have range: "- 999999999 \<le> (120 :: int)" "(120 :: int) \<le> 999999999"
    by simp_all
  have p: "parse_date (\<lambda>s. None) (PyStr ''2024-05-01T08:00:00Z'') = Inr (Some (Date 2024 5 1))"
    by (simp add: date_eval)
  show ?thesis
    using filter_recent_articles_window[OF typed range, of "\<lambda>s. None" "Date 2024 6 1",
        THEN conjunct1]
    by (simp add: getattr_default_def attrs_def p parse_date_examples parse_date_unparseable
        ordinal_eval)
qed

lemma parse_examples:
  "parse fromiso (PyStr ''2024-05-01'') = Inr (Some (Date 2024 5 1))"
  "parse fromiso (PyStr ''2020-01-01'') = Inr (Some (Date 2020 1 1))"
  by (simp_all add: date_eval)

lemma name_examples:
  "strip_method (PyStr '' John DOE '') = Inr ''John DOE''"
  "py_lower ''John DOE'' = ''john doe''"
  "strip_method (PyStr ''Maria Chen'') = Inr ''Maria Chen''"
  "py_lower ''Maria Chen'' = ''maria chen''"
  by (simp_all add: strip_method_def py_strip_def is_space_def py_lower_def char_eval)

theorem filters_idempotent_witness:
  "filter_recent_articles (\<lambda>s. None)
     (Some [PyObj [(''published_date'', PyStr ''2024-05-01'')],
            PyObj [(''published_date'', PyStr ''2023-01-01'')]]) (Date 2024 6 1) 120 =
     Inr [PyObj [(''published_date'', PyStr ''2024-05-01'')]] \<and>
   filter_recent_articles (\<lambda>s. None)
     (Some [PyObj [(''published_date'', PyStr ''2024-05-01'')]]) (Date 2024 6 1) 120 =
     Inr [PyObj [(''published_date'', PyStr ''2024-05-01'')]] \<and>
   filter_valid_transactions
     (Some [PyObj [(''name'', PyStr '' John DOE '')], PyObj [(''name'', PyStr ''Maria Chen'')]]) =
     Inr [PyObj [(''name'', PyStr ''Maria Chen'')]] \<and>
   filter_valid_transactions (Some [PyObj [(''name'', PyStr ''Maria Chen'')]]) =
     Inr [PyObj [(''name'', PyStr ''Maria Chen'')]] \<and>
   filter_recent_transactions (\<lambda>s. None)
     (Some [PyObj [(''name'', PyStr '' John DOE ''), (''transaction_date'', PyStr ''2024-05-01'')],
            PyObj [(''name'', PyStr ''Maria Chen''), (''transaction_date'', PyStr ''2024-05-01'')],
            PyObj [(''name'', PyStr ''Maria Chen''), (''transaction_date'', PyStr ''2020-01-01'')]])
     (Date 2024 6 1) 365 =
     Inr [PyObj [(''name'', PyStr ''Maria Chen''), (''transaction_date'', PyStr ''2024-05-01'')]] \<and>
   filter_recent_transactions (\<lambda>s. None)
     (Some [PyObj [(''name'', PyStr ''Maria Chen''), (''transaction_date'', PyStr ''2024-05-01'')]])
     (Date 2024 6 1) 365 =
     Inr [PyObj [(''name'', PyStr ''Maria Chen''), (''transaction_date'', PyStr ''2024-05-01'')]]"
proof -
  have h1: "filter_recent_articles (\<lambda>s. None)
     (Some [PyObj [(''published_date'', PyStr ''2024-05-01'')],
            PyObj [(''published_date'', PyStr ''2023-01-01'')]]) (Date 2024 6 1) 120 =
     Inr [PyObj [(''published_date'', PyStr ''2024-05-01'')]]"
    by (simp add: filter_eval parse_date_examples older_than_examples)
  have h2: "filter_valid_transactions
     (Some [PyObj [(''name'', PyStr '' John DOE '')], PyObj [(''name'', PyStr ''Maria Chen'')]]) =
     Inr [PyObj [(''name'', PyStr ''Maria Chen'')]]"
    by (simp add: filter_eval name_examples PLACEHOLDER_NAMES_def)
  have h3: "filter_recent_transactions (\<lambda>s. None)
     (Some [PyObj [(''name'', PyStr '' John DOE ''), (''transaction_date'', PyStr ''2024-05-01'')],
            PyObj [(''name'', PyStr ''Maria Chen''), (''transaction_date'', PyStr ''2024-05-01'')],
            PyObj [(''name'', PyStr ''Maria Chen''), (''transaction_date'', PyStr ''2020-01-01'')]])
     (Date 2024 6 1) 365 =
     Inr [PyObj [(''name'', PyStr ''Maria Chen''), (''transaction_date'', PyStr ''2024-05-01'')]]"
    by (simp add: filter_eval name_examples PLACEHOLDER_NAMES_def ebind_def parse_examples
        ordinal_eval)
  note t1 = filters_idempotent[THEN conjunct1, rule_format, OF h1]
  note t2 = filters_idempotent[THEN conjunct2, THEN conjunct1, rule_format, OF h2]
  note t3 = filters_idempotent[THEN conjunct2, THEN conjunct2, rule_format, OF h3]
  show ?thesis
    by (intro conjI h1 h2 h3 t1 t2 t3)
qed

lemma filter_valid_transactions_total:
  assumes "\<forall>t \<in> set txns. \<exists>s. getattr_default t ''name'' (PyStr []) = PyStr s"
  shows "filter_valid_transactions (Some txns) =
    Inr (filter (\<lambda>t. case strip_method (getattr_default t ''name'' (PyStr [])) of
        Inr s \<Rightarrow> py_lower s \<noteq> [] \<and> py_lower s \<notin> set PLACEHOLDER_NAMES
      | Inl e \<Rightarrow> False) txns)"
proof -
  have "valid_loop txns acc =
    Inr (acc @ filter (\<lambda>t. case strip_method (getattr_default t ''name'' (PyStr [])) of
        Inr s \<Rightarrow> py_lower s \<noteq> [] \<and> py_lower s \<notin> set PLACEHOLDER_NAMES
      | Inl e \<Rightarrow> False) txns)" for acc
    using assms
    by (induction txns arbitrary: acc) (auto simp: strip_method_def Let_def)
  then show ?thesis
    by (simp add: filter_valid_transactions_def or_empty_def)
qed

text \<open>
  C4. A transaction whose \<^verbatim>\<open>name\<close> is \<^verbatim>\<open>None\<close> makes \<^verbatim>\<open>filter_valid_transactions\<close> raise
  AttributeError (\<^verbatim>\<open>None\<close> has no \<^verbatim>\<open>strip\<close>), and \<^verbatim>\<open>filter_recent_transactions\<close> with it;
  the default of \<^verbatim>\<open>getattr\<close> covers only the missing attribute, for which the transaction
  is dropped.
\<close>

theorem filter_valid_transactions_raises:
  "filter_valid_transactions (Some [PyObj [(''name'', PyNone)]]) = Inl AttributeError \<and>
   filter_recent_transactions fromiso (Some [PyObj [(''name'', PyNone)]]) as_of m =
     Inl AttributeError \<and>
   filter_valid_transactions (Some [PyObj [(''title'', PyStr ''CEO'')]]) = Inr []"
  by (simp add: filter_eval strip_method_def ebind_def py_strip_def py_lower_def)

end
